theory Spec2Isabelle
  imports Complex_Main
begin

section \<open>The juggling game: data model\<close>

text \<open>
  The embedding follows \<^verbatim>\<open>src/types.ts\<close> and \<^verbatim>\<open>src/components/JugglingGame.tsx\<close>.
  A JavaScript \<^verbatim>\<open>number\<close> is modelled as a real number (timestamps and the score, which
  only ever hold integers, as \<open>int\<close>), so rounding of doubles is outside the model.
  The fields \<^verbatim>\<open>x\<close>, \<^verbatim>\<open>y\<close>, \<^verbatim>\<open>vx\<close>, \<^verbatim>\<open>vy\<close> occur in several interfaces of the source;
  they are declared once, in base records that the interfaces extend.
\<close>

datatype handName = Left | Right

datatype GameState = IDLE | PLAYING | GAME_OVER

record Point =
  x :: real
  y :: real

record Landmark = Point +
  z :: real

record Moving = Point +
  vx :: real
  vy :: real

record HandPosition = Moving +
  isPresent :: bool

text \<open>
  \<^verbatim>\<open>Ball.id\<close> is the field \<open>ballId\<close>; \<^verbatim>\<open>Ball.color\<close> is the string
  \<^verbatim>\<open>hsl(h, 70%, 60%)\<close>, of which the model keeps the hue \<open>h\<close>.
\<close>

record Ball = Moving +
  ballId :: real
  radius :: real
  hue :: real
  isActive :: bool
  heldBy :: "handName option"

record Handedness =
  label :: string
  confidence :: real

text \<open>
  \<^verbatim>\<open>Results\<close>: the two arrays may be missing (\<^verbatim>\<open>undefined\<close>), which the code tests for.
  The image is only drawn and is left out.
\<close>

record Results =
  multiHandLandmarks :: "Landmark list list option"
  multiHandedness :: "Handedness list option"

text \<open>
  The mutable refs of the component. \<^verbatim>\<open>handsRef.current[hName]\<close> and
  \<^verbatim>\<open>throwCooldowns.current[hName]\<close> are objects with the keys \<^verbatim>\<open>left\<close> and
  \<^verbatim>\<open>right\<close>, modelled as functions of \<open>handName\<close>. \<open>draws\<close> counts the calls of
  \<^verbatim>\<open>Math.random()\<close> made so far: the \<open>n\<close>-th call returns \<open>rnd n\<close> for a sequence \<open>rnd\<close>
  that the operations take as a parameter. \<open>targetBallCountState\<close> is the React state
  \<^verbatim>\<open>targetBallCount\<close>, the count configured with the slider.
\<close>

record Game =
  balls :: "Ball list"
  hands :: "handName \<Rightarrow> HandPosition"
  gameState :: GameState
  score :: int
  lastSpawnTime :: int
  throwCooldowns :: "handName \<Rightarrow> int"
  draws :: nat
  targetBallCountState :: nat

datatype error = TypeError

section \<open>Constants\<close>

definition GRAVITY :: real where
  "GRAVITY = 0.00015"

definition BALL_RADIUS :: real where
  "BALL_RADIUS = 0.04"

definition HAND_RADIUS :: real where
  "HAND_RADIUS = 0.1"

definition THROW_THRESHOLD :: real where
  "THROW_THRESHOLD = - 0.08"

definition THROW_COOLDOWN :: int where
  "THROW_COOLDOWN = 400"

definition MAX_STACK_HEIGHT :: nat where
  "MAX_STACK_HEIGHT = 4"

text \<open>The initial state of \<^verbatim>\<open>useState(3)\<close> and the tracker option \<^verbatim>\<open>maxNumHands: 2\<close>.\<close>

definition initialTargetBallCount :: nat where
  "initialTargetBallCount = 3"

definition maxNumHands :: nat where
  "maxNumHands = 2"

section \<open>Hand state: \<^verbatim>\<open>onResults\<close>\<close>

text \<open>
  The loop over \<^verbatim>\<open>results.multiHandLandmarks\<close>, at index \<open>i\<close>, with the pair
  \<open>(nextLeft, nextRight)\<close> built so far. Reading \<^verbatim>\<open>.label\<close> of a missing classification
  or \<^verbatim>\<open>.x\<close> of a missing landmark 9 throws a \<^verbatim>\<open>TypeError\<close>. \<open>prev\<close> is
  \<^verbatim>\<open>handsRef.current\<close>, which the loop does not write.
\<close>

definition palmHand :: "Landmark \<Rightarrow> HandPosition \<Rightarrow> HandPosition" where
  "palmHand palmPoint prevHand =
     \<lparr>x = x palmPoint, y = y palmPoint,
      vx = x palmPoint - x prevHand, vy = y palmPoint - y prevHand,
      isPresent = True\<rparr>"

fun handLoop :: "(handName \<Rightarrow> HandPosition) \<Rightarrow> Handedness list \<Rightarrow> nat \<Rightarrow>
    Landmark list list \<Rightarrow> HandPosition \<times> HandPosition \<Rightarrow> error + HandPosition \<times> HandPosition" where
  "handLoop prev classes i [] nxt = Inr nxt"
| "handLoop prev classes i (landmarks # rest) (nextLeft, nextRight) =
     (if length classes \<le> i then Inl TypeError
      else if length landmarks \<le> 9 then Inl TypeError
      else
        let lbl = label (classes ! i);
            palmPoint = landmarks ! 9;
            prevHand = (if lbl = ''Left'' then prev Left else prev Right);
            pos = palmHand palmPoint prevHand
        in if lbl = ''Left'' then handLoop prev classes (i + 1) rest (pos, nextRight)
           else handLoop prev classes (i + 1) rest (nextLeft, pos))"

definition bothHands :: "HandPosition \<times> HandPosition \<Rightarrow> handName \<Rightarrow> HandPosition" where
  "bothHands nxt hName = (case hName of Left \<Rightarrow> fst nxt | Right \<Rightarrow> snd nxt)"

definition onResults :: "Results \<Rightarrow> (handName \<Rightarrow> HandPosition) \<Rightarrow>
    error + (handName \<Rightarrow> HandPosition)" where
  "onResults results prev =
     (let nextLeft = (prev Left)\<lparr>isPresent := False\<rparr>;
          nextRight = (prev Right)\<lparr>isPresent := False\<rparr>
      in case (multiHandLandmarks results, multiHandedness results) of
           (Some lms, Some classes) \<Rightarrow>
             (case handLoop prev classes 0 lms (nextLeft, nextRight) of
                Inl e \<Rightarrow> Inl e
              | Inr nxt \<Rightarrow> Inr (bothHands nxt))
         | _ \<Rightarrow> Inr (bothHands (nextLeft, nextRight)))"

section \<open>Spawning and respawning\<close>

text \<open>
  \<^verbatim>\<open>spawnBall\<close> calls \<^verbatim>\<open>Math.random()\<close> four times, in the order of the object
  literal: id, x, vx, colour. \<open>now\<close> is the value of \<^verbatim>\<open>Date.now()\<close> read there.
\<close>

definition newBall :: "(nat \<Rightarrow> real) \<Rightarrow> int \<Rightarrow> nat \<Rightarrow> Ball" where
  "newBall rnd now d =
     \<lparr>x = 0.2 + rnd (d + 1) * 0.6, y = - 0.1,
      vx = (rnd (d + 2) - 0.5) * 0.005, vy = 0,
      ballId = real_of_int now + rnd d, radius = BALL_RADIUS,
      hue = rnd (d + 3) * 360, isActive = True, heldBy = None\<rparr>"

definition spawnBall :: "(nat \<Rightarrow> real) \<Rightarrow> int \<Rightarrow> Game \<Rightarrow> Game" where
  "spawnBall rnd now s =
     s\<lparr>balls := balls s @ [newBall rnd now (draws s)], draws := draws s + 4\<rparr>"

definition respawnBall :: "(nat \<Rightarrow> real) \<Rightarrow> Ball \<Rightarrow> nat \<Rightarrow> Ball \<times> nat" where
  "respawnBall rnd ball d =
     (ball\<lparr>x := 0.2 + rnd d * 0.6, y := - 0.2,
           vx := (rnd (d + 1) - 0.5) * 0.005, vy := 0,
           heldBy := None\<rparr>, d + 2)"

definition spawnStep :: "nat \<Rightarrow> (nat \<Rightarrow> real) \<Rightarrow> int \<Rightarrow> Game \<Rightarrow> Game" where
  "spawnStep targetBallCount rnd now s =
     (if length (balls s) < targetBallCount \<and> now - lastSpawnTime s > 500
      then (spawnBall rnd now s)\<lparr>lastSpawnTime := now\<rparr>
      else s)"

section \<open>Hand holdings: throw, stacking, drop\<close>

text \<open>
  \<^verbatim>\<open>ballsRef.current.filter(b => b.heldBy === hName)\<close> is an array of references into
  the registry; the model keeps the registry indices of those references, in registry
  order, and a write through a reference is an update of the registry at that index.
\<close>

definition heldRefs :: "handName \<Rightarrow> Ball list \<Rightarrow> nat list" where
  "heldRefs hName bs = filter (\<lambda>i. heldBy (bs ! i) = Some hName) [0..<length bs]"

definition thrown :: "(nat \<Rightarrow> real) \<Rightarrow> nat \<Rightarrow> HandPosition \<Rightarrow> Ball \<Rightarrow> Ball" where
  "thrown rnd d hand ballToThrow =
     ballToThrow\<lparr>vx := vx hand * 0.25 + (rnd d - 0.5) * 0.005,
                 vy := vy hand * 0.25 - 0.005,
                 heldBy := None\<rparr>"

definition throwBall :: "(nat \<Rightarrow> real) \<Rightarrow> int \<Rightarrow> handName \<Rightarrow> nat \<Rightarrow> Game \<Rightarrow> Game" where
  "throwBall rnd now hName j s =
     s\<lparr>balls := (balls s)[j := thrown rnd (draws s) (hands s hName) (balls s ! j)],
       throwCooldowns := (throwCooldowns s)(hName := now),
       score := score s + 10,
       draws := draws s + 1\<rparr>"

definition place :: "HandPosition \<Rightarrow> nat \<Rightarrow> Ball \<Rightarrow> Ball" where
  "place hand index ball =
     (let stackIndex = min index MAX_STACK_HEIGHT;
          offset = real stackIndex * (radius ball * 1.2)
      in ball\<lparr>x := x hand, y := y hand - 0.05 - offset, vx := vx hand, vy := vy hand\<rparr>)"

text \<open>\<^verbatim>\<open>currentHeld.forEach((ball, index) => ...)\<close>, from position \<open>index\<close> on.\<close>

fun positionHeld :: "HandPosition \<Rightarrow> nat list \<Rightarrow> nat \<Rightarrow> Ball list \<Rightarrow> Ball list" where
  "positionHeld hand [] index bs = bs"
| "positionHeld hand (i # refs) index bs =
     positionHeld hand refs (index + 1) (bs[i := place hand index (bs ! i)])"

text \<open>\<^verbatim>\<open>heldBalls.forEach(b => b.heldBy = null)\<close>.\<close>

fun dropAll :: "nat list \<Rightarrow> Ball list \<Rightarrow> Ball list" where
  "dropAll [] bs = bs"
| "dropAll (i # refs) bs = dropAll refs (bs[i := (bs ! i)\<lparr>heldBy := None\<rparr>])"

definition processHand :: "(nat \<Rightarrow> real) \<Rightarrow> int \<Rightarrow> handName \<Rightarrow> Game \<Rightarrow> Game" where
  "processHand rnd now hName s =
     (let hand = hands s hName;
          heldBalls = heldRefs hName (balls s)
      in if isPresent hand \<and> length heldBalls > 0 then
           (let s1 = (if vy hand < THROW_THRESHOLD
                         \<and> now - throwCooldowns s hName > THROW_COOLDOWN
                      then throwBall rnd now hName (last heldBalls) s
                      else s);
                currentHeld = heldRefs hName (balls s1)
            in s1\<lparr>balls := positionHeld hand currentHeld 0 (balls s1)\<rparr>)
         else if \<not> isPresent hand \<and> length heldBalls > 0 then
           s\<lparr>balls := dropAll heldBalls (balls s)\<rparr>
         else s)"

section \<open>Physics of a free ball\<close>

definition integrate :: "Ball \<Rightarrow> Ball" where
  "integrate ball =
     (let b1 = ball\<lparr>vy := vy ball + GRAVITY\<rparr>;
          b2 = b1\<lparr>y := y b1 + vy b1\<rparr>
      in b2\<lparr>x := x b2 + vx b2\<rparr>)"

definition wallBounce :: "Ball \<Rightarrow> Ball" where
  "wallBounce ball =
     (if x ball < radius ball \<or> x ball > 1 - radius ball
      then ball\<lparr>vx := vx ball * (- 0.8),
                x := max (radius ball) (min (1 - radius ball) (x ball))\<rparr>
      else ball)"

definition checkHandCatch :: "Ball \<Rightarrow> HandPosition \<Rightarrow> handName \<Rightarrow> Ball" where
  "checkHandCatch ball hand hName =
     (if \<not> isPresent hand \<or> heldBy ball \<noteq> None then ball
      else
        let dx = x ball - x hand;
            dy = (y ball - y hand) * 0.75;
            dist = sqrt (dx * dx + dy * dy)
        in if dist < radius ball + HAND_RADIUS / 2 then
             (if vy ball > - 0.01 then ball\<lparr>vx := 0, vy := 0, heldBy := Some hName\<rparr>
              else ball)
           else ball)"

definition catchChecks :: "(handName \<Rightarrow> HandPosition) \<Rightarrow> Ball \<Rightarrow> Ball" where
  "catchChecks hs ball = checkHandCatch (checkHandCatch ball (hs Left) Left) (hs Right) Right"

text \<open>The body of \<^verbatim>\<open>ballsRef.current.forEach(ball => ...)\<close> for one ball.\<close>

definition updateBall :: "(nat \<Rightarrow> real) \<Rightarrow> (handName \<Rightarrow> HandPosition) \<Rightarrow> Ball \<Rightarrow> nat \<Rightarrow>
    Ball \<times> nat" where
  "updateBall rnd hs ball d =
     (if heldBy ball \<noteq> None then (ball, d)
      else
        let b = catchChecks hs (wallBounce (integrate ball))
        in if y b > 1.2 then respawnBall rnd b d else (b, d))"

fun physicsLoop :: "(nat \<Rightarrow> real) \<Rightarrow> (handName \<Rightarrow> HandPosition) \<Rightarrow> Ball list \<Rightarrow> nat \<Rightarrow>
    Ball list \<times> nat" where
  "physicsLoop rnd hs [] d = ([], d)"
| "physicsLoop rnd hs (ball # rest) d =
     (let (b, d1) = updateBall rnd hs ball d;
          (bs, d2) = physicsLoop rnd hs rest d1
      in (b # bs, d2))"

definition physics :: "(nat \<Rightarrow> real) \<Rightarrow> Game \<Rightarrow> Game" where
  "physics rnd s =
     (let (bs, d) = physicsLoop rnd (hands s) (balls s) (draws s)
      in s\<lparr>balls := bs, draws := d\<rparr>)"

section \<open>One frame: \<^verbatim>\<open>updateGame\<close>\<close>

text \<open>
  \<open>targetBallCount\<close> is the value of that variable in the closure of \<^verbatim>\<open>updateGame\<close>;
  \<open>now\<close> is \<^verbatim>\<open>Date.now()\<close>. \<open>resolve\<close> is the frame up to the start of the physics loop.
\<close>

definition resolve :: "nat \<Rightarrow> (nat \<Rightarrow> real) \<Rightarrow> int \<Rightarrow> Game \<Rightarrow> Game" where
  "resolve targetBallCount rnd now s =
     processHand rnd now Right (processHand rnd now Left (spawnStep targetBallCount rnd now s))"

definition updateGame :: "nat \<Rightarrow> (nat \<Rightarrow> real) \<Rightarrow> int \<Rightarrow> Game \<Rightarrow> Game" where
  "updateGame targetBallCount rnd now s =
     (if gameState s \<noteq> PLAYING then s
      else physics rnd (resolve targetBallCount rnd now s))"

text \<open>
  One landmark frame: \<^verbatim>\<open>onResults\<close> stores the new hands and calls \<^verbatim>\<open>draw\<close>, which
  calls \<^verbatim>\<open>updateGame\<close> (the canvas and its context are taken to exist; drawing itself
  and the outward callbacks that report the score are not modelled). An exception in
  the loop leaves before the hands are stored. \<open>targetBallCount\<close> is again the value in
  the closure.
\<close>

definition onFrame :: "Results \<Rightarrow> nat \<Rightarrow> (nat \<Rightarrow> real) \<Rightarrow> int \<Rightarrow> Game \<Rightarrow> error + Game" where
  "onFrame results targetBallCount rnd now s =
     (case onResults results (hands s) of
        Inl e \<Rightarrow> Inl e
      | Inr hs \<Rightarrow> Inr (updateGame targetBallCount rnd now (s\<lparr>hands := hs\<rparr>)))"

text \<open>
  The frame as the component runs it. \<^verbatim>\<open>onResults\<close> is memoised by \<^verbatim>\<open>useCallback\<close> with
  an empty dependency list and handed to the tracker once, so every frame runs the
  \<^verbatim>\<open>draw\<close> and the \<^verbatim>\<open>updateGame\<close> of the first render, in whose closure
  \<^verbatim>\<open>targetBallCount\<close> is the initial state. The slider's \<^verbatim>\<open>setTargetBallCount\<close> changes
  the state that later renders read, not that closure.
\<close>

definition draw :: "(nat \<Rightarrow> real) \<Rightarrow> int \<Rightarrow> Game \<Rightarrow> Game" where
  "draw rnd now s = updateGame initialTargetBallCount rnd now s"

definition setTargetBallCount :: "nat \<Rightarrow> Game \<Rightarrow> Game" where
  "setTargetBallCount v s = s\<lparr>targetBallCountState := v\<rparr>"

section \<open>The conditions of the specification\<close>

text \<open>
  The throw condition in the words of the specification: the hand is present, holds at
  least one ball, moves up faster than the threshold, and its cooldown has passed.
\<close>

definition throwFires :: "int \<Rightarrow> handName \<Rightarrow> Game \<Rightarrow> bool" where
  "throwFires now hName s \<longleftrightarrow>
     isPresent (hands s hName) \<and> heldRefs hName (balls s) \<noteq> []
     \<and> vy (hands s hName) < THROW_THRESHOLD
     \<and> now - throwCooldowns s hName > THROW_COOLDOWN"

text \<open>
  The catch condition in the words of the specification: the elliptical distance between
  ball and hand anchor is below the ball's radius plus half the hand radius, and the ball
  is not moving up faster than 0.01.
\<close>

definition catchCondition :: "Ball \<Rightarrow> HandPosition \<Rightarrow> bool" where
  "catchCondition ball hand \<longleftrightarrow>
     sqrt ((x ball - x hand)\<^sup>2 + (0.75 * (y ball - y hand))\<^sup>2) < radius ball + HAND_RADIUS / 2
     \<and> vy ball > - 0.01"

text \<open>
  The hand update in the words of the specification. A detection labelled \<^verbatim>\<open>Left\<close>
  belongs to the left side and any other label to the right side; \<open>detections\<close> lists
  the positions, among the first \<open>n\<close> detections of a frame, of those that belong to a
  side. A side with a detection gets its anchor from landmark 9, its velocity as the
  difference to the previous anchor, and is present; a side without one keeps its
  previous position and velocity and is not present. When a side has several
  detections, the last one counts.
\<close>

definition sideOf :: "string \<Rightarrow> handName" where
  "sideOf lbl = (if lbl = ''Left'' then Left else Right)"

definition detections :: "handName \<Rightarrow> Handedness list \<Rightarrow> nat \<Rightarrow> nat list" where
  "detections h classes n = filter (\<lambda>i. sideOf (label (classes ! i)) = h) [0..<n]"

definition tracked :: "(handName \<Rightarrow> HandPosition) \<Rightarrow> Landmark list list \<Rightarrow> Handedness list \<Rightarrow>
    handName \<Rightarrow> HandPosition" where
  "tracked prev lms classes h =
     (if detections h classes (length lms) = [] then (prev h)\<lparr>isPresent := False\<rparr>
      else
        let anchor = lms ! last (detections h classes (length lms)) ! 9
        in \<lparr>x = x anchor, y = y anchor,
            vx = x anchor - x (prev h), vy = y anchor - y (prev h),
            isPresent = True\<rparr>)"

section \<open>Example balls, hands and states\<close>

text \<open>
  Concrete inputs at which the theorems below are instantiated: a ball of the standard
  radius, a hand, a game in the Playing state with both cooldowns and the last spawn
  time at 0, and a random sequence that always returns 0.5.
\<close>

definition ballAt :: "real \<Rightarrow> real \<Rightarrow> real \<Rightarrow> real \<Rightarrow> handName option \<Rightarrow> Ball" where
  "ballAt px py pvx pvy held =
     \<lparr>x = px, y = py, vx = pvx, vy = pvy,
      ballId = 1, radius = BALL_RADIUS, hue = 0, isActive = True, heldBy = held\<rparr>"

definition handAt :: "real \<Rightarrow> real \<Rightarrow> real \<Rightarrow> real \<Rightarrow> bool \<Rightarrow> HandPosition" where
  "handAt px py pvx pvy present = \<lparr>x = px, y = py, vx = pvx, vy = pvy, isPresent = present\<rparr>"

definition noHand :: HandPosition where
  "noHand = handAt 0 0 0 0 False"

definition playing :: "Ball list \<Rightarrow> HandPosition \<Rightarrow> HandPosition \<Rightarrow> Game" where
  "playing bs l r =
     \<lparr>balls = bs, hands = bothHands (l, r), gameState = PLAYING, score = 0,
      lastSpawnTime = 0, throwCooldowns = (\<lambda>h. 0), draws = 0,
      targetBallCountState = initialTargetBallCount\<rparr>"

definition half :: "nat \<Rightarrow> real" where
  "half n = 0.5"

lemmas example_defs = ballAt_def handAt_def noHand_def playing_def half_def bothHands_def
  BALL_RADIUS_def HAND_RADIUS_def GRAVITY_def THROW_THRESHOLD_def THROW_COOLDOWN_def
  MAX_STACK_HEIGHT_def

text \<open>
  A hand detected with its palm landmark at \<open>(px, py)\<close>, and a three-frame run of
  the game: \<open>trace0\<close> is the start, \<open>trace1\<close>, \<open>trace2\<close> and \<open>trace3\<close> are the states
  after each frame.
\<close>

definition palmAt :: "real \<Rightarrow> real \<Rightarrow> Landmark list" where
  "palmAt px py = replicate 9 \<lparr>x = 0, y = 0, z = 0\<rparr> @ [\<lparr>x = px, y = py, z = 0\<rparr>]"

definition seen :: "string \<Rightarrow> real \<Rightarrow> real \<Rightarrow> Results" where
  "seen lbl px py =
     \<lparr>multiHandLandmarks = Some [palmAt px py],
      multiHandedness = Some [\<lparr>label = lbl, confidence = 1\<rparr>]\<rparr>"

definition trace0 :: Game where
  "trace0 = playing [ballAt 0.5 0.09955 0 0.2 None, (ballAt 0.5 0.49985 0 0 None)\<lparr>ballId := 2\<rparr>]
     (handAt 0.5 0.5 0 0 False) noHand"

definition trace1 :: Game where
  "trace1 = playing [ballAt 0.5 0.2997 0 0.20015 None, (ballAt 0.5 0.5 0 0 (Some Left))\<lparr>ballId := 2\<rparr>]
     (handAt 0.5 0.5 0 0 True) noHand"

definition trace2 :: Game where
  "trace2 = playing [ballAt 0.5 0.5 0 0 (Some Left), (ballAt 0.5 0.45 0 0 (Some Left))\<lparr>ballId := 2\<rparr>]
     (handAt 0.5 0.5 0 0 True) noHand"

definition trace3 :: Game where
  "trace3 = (playing [ballAt 0.5 0.35 0 (- 0.1) (Some Left),
                      (ballAt 0.5 0.42015 0 (- 0.02985) None)\<lparr>ballId := 2\<rparr>]
     (handAt 0.5 0.4 0 (- 0.1) True) noHand)
     \<lparr>score := 10, throwCooldowns := (\<lambda>h. 0)(Left := 1032), draws := 1\<rparr>"

text \<open>Detections labelled left and right, and the frame made of a list of detections.\<close>

definition leftAt :: "real \<Rightarrow> real \<Rightarrow> Landmark list \<times> Handedness" where
  "leftAt px py = (palmAt px py, \<lparr>label = ''Left'', confidence = 1\<rparr>)"

definition rightAt :: "real \<Rightarrow> real \<Rightarrow> Landmark list \<times> Handedness" where
  "rightAt px py = (palmAt px py, \<lparr>label = ''Right'', confidence = 1\<rparr>)"

definition frameOf :: "(Landmark list \<times> Handedness) list \<Rightarrow> Results" where
  "frameOf ds = \<lparr>multiHandLandmarks = Some (map fst ds), multiHandedness = Some (map snd ds)\<rparr>"

text \<open>
  A frame whose detections can all be read: each has a classification at its position
  and a landmark 9. \<^verbatim>\<open>onResults\<close> throws on any other frame.
\<close>

definition wellFormed :: "Landmark list list \<Rightarrow> Handedness list \<Rightarrow> bool" where
  "wellFormed lms classes \<longleftrightarrow> length lms \<le> length classes \<and> list_all (\<lambda>l. 9 < length l) lms"

section \<open>Registry lemmas\<close>

lemma set_heldRefs:
  "set (heldRefs h bs) = {i. i < length bs \<and> heldBy (bs ! i) = Some h}"
  by (auto simp: heldRefs_def)

lemma distinct_heldRefs: "distinct (heldRefs h bs)"
  by (simp add: heldRefs_def)

lemma last_heldRefs:
  "heldRefs h bs \<noteq> [] \<Longrightarrow>
     last (heldRefs h bs) < length bs \<and> heldBy (bs ! last (heldRefs h bs)) = Some h"
  using last_in_set [of "heldRefs h bs"] by (simp add: set_heldRefs)

lemma heldRefs_cong:
  "length bs' = length bs \<Longrightarrow>
   (\<And>i. i < length bs \<Longrightarrow> heldBy (bs' ! i) = Some h \<longleftrightarrow> heldBy (bs ! i) = Some h) \<Longrightarrow>
   heldRefs h bs' = heldRefs h bs"
  unfolding heldRefs_def by (auto intro: filter_cong)

lemma heldRefs_snoc_free:
  "heldBy b = None \<Longrightarrow> heldRefs h (bs @ [b]) = heldRefs h bs"
  unfolding heldRefs_def by (auto simp: nth_append intro: filter_cong)

lemma length_positionHeld [simp]:
  "length (positionHeld hand refs k bs) = length bs"
  by (induction refs arbitrary: k bs) auto

lemma positionHeld_other:
  "j \<notin> set refs \<Longrightarrow> positionHeld hand refs k bs ! j = bs ! j"
  by (induction refs arbitrary: k bs) auto

lemma positionHeld_nth:
  "distinct refs \<Longrightarrow> \<forall>i \<in> set refs. i < length bs \<Longrightarrow> n < length refs \<Longrightarrow>
     positionHeld hand refs k bs ! (refs ! n) = place hand (k + n) (bs ! (refs ! n))"
proof (induction refs arbitrary: k bs n)
  case Nil
  then show ?case by simp
next
  case (Cons i refs)
  show ?case
  proof (cases n)
    case 0
    with Cons.prems show ?thesis by (simp add: positionHeld_other)
  next
    case (Suc m)
    with Cons.prems have m: "m < length refs" and ne: "refs ! m \<noteq> i"
      by auto
    from Cons.prems have "distinct refs" "\<forall>r \<in> set refs. r < length (bs[i := place hand k (bs ! i)])"
      by auto
    from Cons.IH [OF this m] ne Suc show ?thesis by simp
  qed
qed

lemma positionHeld_cases:
  "distinct refs \<Longrightarrow> \<forall>i \<in> set refs. i < length bs \<Longrightarrow>
     positionHeld hand refs k bs ! j = bs ! j \<or> (j \<in> set refs \<and> (\<exists>n. positionHeld hand refs k bs ! j = place hand n (bs ! j)))"
proof (cases "j \<in> set refs")
  case True
  assume a: "distinct refs" "\<forall>i \<in> set refs. i < length bs"
  from True obtain n where "n < length refs" "refs ! n = j" by (auto simp: in_set_conv_nth)
  with positionHeld_nth [OF a, of n hand k] True show ?thesis by auto
next
  case False
  then show ?thesis by (simp add: positionHeld_other)
qed

lemma length_dropAll [simp]: "length (dropAll refs bs) = length bs"
  by (induction refs arbitrary: bs) auto

lemma dropAll_nth:
  "j < length bs \<Longrightarrow>
     dropAll refs bs ! j = (if j \<in> set refs then (bs ! j)\<lparr>heldBy := None\<rparr> else bs ! j)"
proof (induction refs arbitrary: bs)
  case Nil
  then show ?case by simp
next
  case (Cons i refs)
  then show ?case by (cases "i = j") simp_all
qed

lemma length_physicsLoop [simp]:
  "length (fst (physicsLoop rnd hs bs d)) = length bs"
  by (induction bs arbitrary: d) (simp_all add: case_prod_unfold Let_def)

lemma physicsLoop_nth:
  "i < length bs \<Longrightarrow> \<exists>d'. fst (physicsLoop rnd hs bs d) ! i = fst (updateBall rnd hs (bs ! i) d')"
proof (induction bs arbitrary: d i)
  case Nil
  then show ?case by simp
next
  case (Cons b bs)
  show ?case
  proof (cases i)
    case 0
    then show ?thesis by (auto simp: case_prod_unfold Let_def intro: exI [of _ d])
  next
    case (Suc m)
    with Cons.prems have "m < length bs" by simp
    from Cons.IH [OF this] Suc show ?thesis
      by (simp add: case_prod_unfold Let_def)
  qed
qed

section \<open>One hand's step, ball by ball\<close>

lemma heldBy_place [simp]: "heldBy (place hand k b) = heldBy b"
  by (simp add: place_def Let_def)

lemma radius_place [simp]: "radius (place hand k b) = radius b"
  by (simp add: place_def Let_def)

lemma ballId_place [simp]: "ballId (place hand k b) = ballId b"
  by (simp add: place_def Let_def)

lemma vel_place [simp]: "vx (place hand k b) = vx hand" "vy (place hand k b) = vy hand"
  by (simp_all add: place_def Let_def)

lemma heldBy_thrown [simp]: "heldBy (thrown rnd d hand b) = None"
  by (simp add: thrown_def)

lemma vy_thrown [simp]: "vy (thrown rnd d hand b) = vy hand * 0.25 - 0.005"
  by (simp add: thrown_def)

lemma ballId_thrown [simp]: "ballId (thrown rnd d hand b) = ballId b"
  by (simp add: thrown_def)

lemma processHand_fires:
  "throwFires now h s \<Longrightarrow>
     processHand rnd now h s =
       (let s1 = throwBall rnd now h (last (heldRefs h (balls s))) s
        in s1\<lparr>balls := positionHeld (hands s h) (heldRefs h (balls s1)) 0 (balls s1)\<rparr>)"
  by (simp add: processHand_def throwFires_def Let_def)

lemma processHand_holds:
  "\<not> throwFires now h s \<Longrightarrow> isPresent (hands s h) \<Longrightarrow>
     processHand rnd now h s = s\<lparr>balls := positionHeld (hands s h) (heldRefs h (balls s)) 0 (balls s)\<rparr>"
  by (auto simp: processHand_def throwFires_def Let_def)

lemma processHand_drops:
  "\<not> isPresent (hands s h) \<Longrightarrow>
     processHand rnd now h s = s\<lparr>balls := dropAll (heldRefs h (balls s)) (balls s)\<rparr>"
  by (auto simp: processHand_def Let_def)

lemma refs_in_range: "\<forall>r \<in> set (heldRefs h bs). r < length bs"
  by (simp add: set_heldRefs)

lemma length_processHand [simp]:
  "length (balls (processHand rnd now h s)) = length (balls s)"
  by (cases "throwFires now h s"; cases "isPresent (hands s h)")
     (simp_all add: processHand_fires processHand_holds processHand_drops throwBall_def Let_def throwFires_def)

lemma processHand_fields [simp]:
  "hands (processHand rnd now h s) = hands s"
  "gameState (processHand rnd now h s) = gameState s"
  "lastSpawnTime (processHand rnd now h s) = lastSpawnTime s"
  by (simp_all add: processHand_def throwBall_def Let_def)

lemma processHand_other:
  assumes "i < length (balls s)" "heldBy (balls s ! i) \<noteq> Some h"
  shows "balls (processHand rnd now h s) ! i = balls s ! i"
proof -
  have notin: "i \<notin> set (heldRefs h (balls s))"
    using assms by (simp add: set_heldRefs)
  show ?thesis
  proof (cases "isPresent (hands s h)")
    case False
    then show ?thesis using assms notin by (simp add: processHand_drops dropAll_nth)
  next
    case True
    show ?thesis
    proof (cases "throwFires now h s")
      case False
      then show ?thesis using True notin by (simp add: processHand_holds positionHeld_other)
    next
      case fires: True
      let ?j = "last (heldRefs h (balls s))"
      let ?s1 = "throwBall rnd now h ?j s"
      from fires have "heldRefs h (balls s) \<noteq> []" by (simp add: throwFires_def)
      from last_heldRefs [OF this] assms have ne: "?j \<noteq> i" by auto
      have "i \<notin> set (heldRefs h (balls ?s1))"
        using assms ne by (simp add: set_heldRefs throwBall_def)
      then show ?thesis using fires ne
        by (simp add: processHand_fires Let_def positionHeld_other) (simp add: throwBall_def)
    qed
  qed
qed

lemma processHand_dropped:
  assumes "i < length (balls s)" "heldBy (balls s ! i) = Some h" "\<not> isPresent (hands s h)"
  shows "balls (processHand rnd now h s) ! i = (balls s ! i)\<lparr>heldBy := None\<rparr>"
  using assms by (simp add: processHand_drops dropAll_nth set_heldRefs)

lemma processHand_thrown:
  assumes "throwFires now h s"
  shows "balls (processHand rnd now h s) ! last (heldRefs h (balls s)) =
           thrown rnd (draws s) (hands s h) (balls s ! last (heldRefs h (balls s)))"
proof -
  let ?j = "last (heldRefs h (balls s))"
  let ?s1 = "throwBall rnd now h ?j s"
  from assms have "heldRefs h (balls s) \<noteq> []" by (simp add: throwFires_def)
  from last_heldRefs [OF this] have j: "?j < length (balls s)" by simp
  then have "?j \<notin> set (heldRefs h (balls ?s1))"
    by (simp add: set_heldRefs throwBall_def)
  then show ?thesis using assms j
    by (simp add: processHand_fires Let_def positionHeld_other) (simp add: throwBall_def)
qed

lemma processHand_placed:
  assumes "i < length (balls s)" "heldBy (balls s ! i) = Some h" "isPresent (hands s h)"
    and "\<not> (throwFires now h s \<and> i = last (heldRefs h (balls s)))"
  shows "\<exists>k. balls (processHand rnd now h s) ! i = place (hands s h) k (balls s ! i)"
proof (cases "throwFires now h s")
  case False
  from assms have "i \<in> set (heldRefs h (balls s))" by (simp add: set_heldRefs)
  then obtain n where "n < length (heldRefs h (balls s))" "heldRefs h (balls s) ! n = i"
    by (auto simp: in_set_conv_nth)
  with positionHeld_nth [OF distinct_heldRefs refs_in_range, of n h "balls s" "hands s h" 0]
  show ?thesis using False assms(3) by (auto simp: processHand_holds)
next
  case fires: True
  let ?j = "last (heldRefs h (balls s))"
  let ?s1 = "throwBall rnd now h ?j s"
  from fires assms have ne: "i \<noteq> ?j" by simp
  have eq: "balls ?s1 ! i = balls s ! i" using ne by (simp add: throwBall_def)
  have len: "length (balls ?s1) = length (balls s)" by (simp add: throwBall_def)
  have "i \<in> set (heldRefs h (balls ?s1))"
    using assms eq len by (simp add: set_heldRefs)
  then obtain n where "n < length (heldRefs h (balls ?s1))" "heldRefs h (balls ?s1) ! n = i"
    by (auto simp: in_set_conv_nth)
  with positionHeld_nth [OF distinct_heldRefs refs_in_range, of n h "balls ?s1" "hands s h" 0]
  have "positionHeld (hands s h) (heldRefs h (balls ?s1)) 0 (balls ?s1) ! i
          = place (hands s h) n (balls s ! i)"
    using eq by simp
  then show ?thesis using fires by (auto simp: processHand_fires Let_def)
qed

text \<open>What one hand's step can do to the ball at index \<open>i\<close>.\<close>

lemma processHand_cases:
  assumes "i < length (balls s)"
  shows "(heldBy (balls s ! i) \<noteq> Some h \<and> balls (processHand rnd now h s) ! i = balls s ! i)
       \<or> (heldBy (balls s ! i) = Some h \<and> \<not> isPresent (hands s h)
            \<and> balls (processHand rnd now h s) ! i = (balls s ! i)\<lparr>heldBy := None\<rparr>)
       \<or> (heldBy (balls s ! i) = Some h \<and> throwFires now h s \<and> i = last (heldRefs h (balls s))
            \<and> balls (processHand rnd now h s) ! i = thrown rnd (draws s) (hands s h) (balls s ! i))
       \<or> (heldBy (balls s ! i) = Some h \<and> isPresent (hands s h)
            \<and> (\<exists>k. balls (processHand rnd now h s) ! i = place (hands s h) k (balls s ! i)))"
proof (cases "heldBy (balls s ! i) = Some h")
  case False
  with processHand_other [OF assms] show ?thesis by simp
next
  case held: True
  show ?thesis
  proof (cases "isPresent (hands s h)")
    case False
    with processHand_dropped [OF assms held] held show ?thesis by simp
  next
    case True
    show ?thesis
    proof (cases "throwFires now h s \<and> i = last (heldRefs h (balls s))")
      case True
      with processHand_thrown [of now h s rnd] held show ?thesis by simp
    next
      case False
      from processHand_placed [OF assms held True False] held True show ?thesis by simp
    qed
  qed
qed

section \<open>The frame, ball by ball\<close>

lemma spawnStep_fields [simp]:
  "hands (spawnStep tgt rnd now s) = hands s"
  "gameState (spawnStep tgt rnd now s) = gameState s"
  "throwCooldowns (spawnStep tgt rnd now s) = throwCooldowns s"
  "score (spawnStep tgt rnd now s) = score s"
  by (simp_all add: spawnStep_def spawnBall_def)

lemma spawnStep_nth:
  "i < length (balls s) \<Longrightarrow> balls (spawnStep tgt rnd now s) ! i = balls s ! i"
  by (simp add: spawnStep_def spawnBall_def nth_append)

lemma length_spawnStep: "length (balls s) \<le> length (balls (spawnStep tgt rnd now s))"
  by (simp add: spawnStep_def spawnBall_def)

lemma heldRefs_spawnStep [simp]:
  "heldRefs h (balls (spawnStep tgt rnd now s)) = heldRefs h (balls s)"
  by (simp add: spawnStep_def spawnBall_def heldRefs_snoc_free newBall_def)

lemma throwFires_spawnStep [simp]:
  "throwFires now h (spawnStep tgt rnd now s) = throwFires now h s"
  by (simp add: throwFires_def)

lemma processHand_heldBy_other:
  assumes "i < length (balls s)" "h' \<noteq> h"
  shows "heldBy (balls (processHand rnd now h s) ! i) = Some h' \<longleftrightarrow> heldBy (balls s ! i) = Some h'"
  using processHand_cases [OF assms(1), of h rnd now] assms(2) by auto

lemma heldRefs_processHand_other:
  "h' \<noteq> h \<Longrightarrow> heldRefs h' (balls (processHand rnd now h s)) = heldRefs h' (balls s)"
  by (rule heldRefs_cong) (simp_all add: processHand_heldBy_other)

lemma throwCooldowns_processHand_other:
  "h' \<noteq> h \<Longrightarrow> throwCooldowns (processHand rnd now h s) h' = throwCooldowns s h'"
  by (simp add: processHand_def throwBall_def Let_def)

lemma throwFires_processHand_other:
  "h' \<noteq> h \<Longrightarrow> throwFires now h' (processHand rnd now h s) = throwFires now h' s"
  by (simp add: throwFires_def heldRefs_processHand_other throwCooldowns_processHand_other)

lemma resolve_fields [simp]:
  "hands (resolve tgt rnd now s) = hands s"
  "gameState (resolve tgt rnd now s) = gameState s"
  by (simp_all add: resolve_def)

lemma length_resolve: "length (balls s) \<le> length (balls (resolve tgt rnd now s))"
  by (simp add: resolve_def length_spawnStep)

lemma length_physics [simp]: "length (balls (physics rnd s)) = length (balls s)"
  using length_physicsLoop [of rnd "hands s" "balls s" "draws s"]
  by (simp add: physics_def case_prod_unfold Let_def)

lemma physics_nth:
  "i < length (balls s) \<Longrightarrow>
     \<exists>d. balls (physics rnd s) ! i = fst (updateBall rnd (hands s) (balls s ! i) d)"
  using physicsLoop_nth [of i "balls s" rnd "hands s" "draws s"]
  by (simp add: physics_def case_prod_unfold Let_def)

lemma updateBall_held: "heldBy b \<noteq> None \<Longrightarrow> fst (updateBall rnd hs b d) = b"
  by (simp add: updateBall_def)

lemma integrate_fields [simp]:
  "vy (integrate b) = vy b + GRAVITY"
  "vx (integrate b) = vx b"
  "y (integrate b) = y b + (vy b + GRAVITY)"
  "x (integrate b) = x b + vx b"
  "radius (integrate b) = radius b"
  "heldBy (integrate b) = heldBy b"
  "ballId (integrate b) = ballId b"
  by (simp_all add: integrate_def Let_def)

lemma wallBounce_fields [simp]:
  "vy (wallBounce b) = vy b"
  "y (wallBounce b) = y b"
  "radius (wallBounce b) = radius b"
  "heldBy (wallBounce b) = heldBy b"
  "ballId (wallBounce b) = ballId b"
  by (simp_all add: wallBounce_def)

lemma checkHandCatch_fields [simp]:
  "y (checkHandCatch b hand h) = y b"
  "x (checkHandCatch b hand h) = x b"
  "radius (checkHandCatch b hand h) = radius b"
  "ballId (checkHandCatch b hand h) = ballId b"
  by (simp_all add: checkHandCatch_def Let_def)

lemma checkHandCatch_rising:
  "vy b \<le> - 0.01 \<Longrightarrow> checkHandCatch b hand h = b"
  by (simp add: checkHandCatch_def Let_def)

lemma checkHandCatch_caught:
  "heldBy b = None \<Longrightarrow> heldBy (checkHandCatch b hand h) = Some h' \<Longrightarrow>
     h' = h \<and> isPresent hand \<and> vx (checkHandCatch b hand h) = 0 \<and> vy (checkHandCatch b hand h) = 0"
  by (auto simp: checkHandCatch_def Let_def split: if_splits)

lemma checkHandCatch_excluded:
  "heldBy b \<noteq> None \<Longrightarrow> checkHandCatch b hand h = b"
  by (simp add: checkHandCatch_def)

lemma catchChecks_caught:
  assumes "heldBy b = None" "heldBy (catchChecks hs b) = Some h"
  shows "isPresent (hs h) \<and> vx (catchChecks hs b) = 0 \<and> vy (catchChecks hs b) = 0"
proof (cases "heldBy (checkHandCatch b (hs Left) Left)")
  case None
  from checkHandCatch_caught [OF None] assms(2) show ?thesis
    by (auto simp: catchChecks_def)
next
  case (Some h')
  then have eq: "catchChecks hs b = checkHandCatch b (hs Left) Left"
    by (simp add: catchChecks_def checkHandCatch_excluded)
  from checkHandCatch_caught [OF assms(1) Some] assms(2) Some show ?thesis
    by (auto simp: eq)
qed

lemma updateBall_caught:
  assumes "heldBy b = None" "heldBy (fst (updateBall rnd hs b d)) = Some h"
  shows "isPresent (hs h) \<and> vx (fst (updateBall rnd hs b d)) = 0 \<and> vy (fst (updateBall rnd hs b d)) = 0
         \<and> - 0.01 < vy b + GRAVITY"
proof -
  let ?c = "catchChecks hs (wallBounce (integrate b))"
  have r: "\<not> y ?c > 1.2"
    using assms by (auto simp: updateBall_def Let_def respawnBall_def)
  then have eq: "fst (updateBall rnd hs b d) = ?c"
    using assms(1) by (simp add: updateBall_def Let_def)
  have free: "heldBy (wallBounce (integrate b)) = None" using assms(1) by simp
  from catchChecks_caught [OF free] assms(2) eq
  have c: "isPresent (hs h) \<and> vx ?c = 0 \<and> vy ?c = 0" by simp
  have "- 0.01 < vy b + GRAVITY"
  proof (rule ccontr)
    assume "\<not> - 0.01 < vy b + GRAVITY"
    then have "vy (wallBounce (integrate b)) \<le> - 0.01" by simp
    then have "?c = wallBounce (integrate b)"
      by (simp add: catchChecks_def checkHandCatch_rising)
    with assms(2) eq free show False by simp
  qed
  with c eq show ?thesis by simp
qed

lemma updateBall_ballId [simp]: "ballId (fst (updateBall rnd hs b d)) = ballId b"
  by (simp add: updateBall_def Let_def respawnBall_def catchChecks_def)

text \<open>What the two hand steps, left then right, can do to the ball at index \<open>i\<close>.\<close>

lemma hands_cases:
  assumes "i < length (balls s)"
  shows "(heldBy (balls s ! i) = None
            \<and> balls (processHand rnd now Right (processHand rnd now Left s)) ! i = balls s ! i)
       \<or> (\<exists>h. heldBy (balls s ! i) = Some h \<and> \<not> isPresent (hands s h)
            \<and> balls (processHand rnd now Right (processHand rnd now Left s)) ! i
                = (balls s ! i)\<lparr>heldBy := None\<rparr>)
       \<or> (\<exists>h d. heldBy (balls s ! i) = Some h \<and> throwFires now h s
            \<and> i = last (heldRefs h (balls s))
            \<and> balls (processHand rnd now Right (processHand rnd now Left s)) ! i
                = thrown rnd d (hands s h) (balls s ! i))
       \<or> (\<exists>h k. heldBy (balls s ! i) = Some h \<and> isPresent (hands s h)
            \<and> balls (processHand rnd now Right (processHand rnd now Left s)) ! i
                = place (hands s h) k (balls s ! i))"
proof -
  let ?sL = "processHand rnd now Left s"
  have iL: "i < length (balls ?sL)" using assms by simp
  show ?thesis
  proof (cases "heldBy (balls s ! i) = Some Right")
    case True
    then have eq: "balls ?sL ! i = balls s ! i"
      using assms by (simp add: processHand_other)
    have f: "throwFires now Right ?sL = throwFires now Right s"
      by (simp add: throwFires_processHand_other)
    have r: "heldRefs Right (balls ?sL) = heldRefs Right (balls s)"
      by (simp add: heldRefs_processHand_other)
    from processHand_cases [OF iL, of Right rnd now] True show ?thesis
      unfolding eq f r by auto
  next
    case False
    have nl: "heldBy (balls s ! i) = None \<or> heldBy (balls s ! i) = Some Left"
    proof (cases "heldBy (balls s ! i)")
      case None
      then show ?thesis by simp
    next
      case (Some a)
      with False show ?thesis by (cases a) simp_all
    qed
    from processHand_cases [OF assms, of Left rnd now]
    have "heldBy (balls ?sL ! i) \<noteq> Some Right"
      using False by auto
    then have eq: "balls (processHand rnd now Right ?sL) ! i = balls ?sL ! i"
      using iL by (simp add: processHand_other)
    from processHand_cases [OF assms, of Left rnd now] nl show ?thesis
      unfolding eq by auto
  qed
qed

lemma resolve_nth:
  "balls (resolve tgt rnd now s) ! i
     = balls (processHand rnd now Right (processHand rnd now Left (spawnStep tgt rnd now s))) ! i"
  by (simp add: resolve_def)

lemma length_resolve_eq:
  "length (balls (resolve tgt rnd now s)) = length (balls (spawnStep tgt rnd now s))"
  by (simp add: resolve_def)

lemma spawnStep_new:
  "length (balls s) \<le> i \<Longrightarrow> i < length (balls (spawnStep tgt rnd now s)) \<Longrightarrow>
     heldBy (balls (spawnStep tgt rnd now s) ! i) = None"
  by (auto simp: spawnStep_def spawnBall_def newBall_def nth_append split: if_splits)

lemma resolve_dropped:
  assumes "\<not> isPresent (hands s h)" "i < length (balls s)" "heldBy (balls s ! i) = Some h"
  shows "balls (resolve tgt rnd now s) ! i = (balls s ! i)\<lparr>heldBy := None\<rparr>"
proof -
  let ?sp = "spawnStep tgt rnd now s"
  have i: "i < length (balls ?sp)" using assms(2) length_spawnStep [of s tgt rnd now] by simp
  have b: "balls ?sp ! i = balls s ! i" using assms(2) by (simp add: spawnStep_nth)
  from hands_cases [OF i, of rnd now] assms(1,3) show ?thesis
    unfolding resolve_nth b by (auto simp: throwFires_def)
qed

lemma resolve_thrown:
  assumes "throwFires now h s"
  shows "\<exists>d. balls (resolve tgt rnd now s) ! last (heldRefs h (balls s))
            = thrown rnd d (hands s h) (balls s ! last (heldRefs h (balls s)))"
proof -
  let ?sp = "spawnStep tgt rnd now s"
  let ?j = "last (heldRefs h (balls s))"
  let ?sL = "processHand rnd now Left ?sp"
  from assms have ne: "heldRefs h (balls s) \<noteq> []" by (simp add: throwFires_def)
  from last_heldRefs [OF ne] have j: "?j < length (balls s)" and held: "heldBy (balls s ! ?j) = Some h"
    by simp_all
  have jp: "?j < length (balls ?sp)" using j length_spawnStep [of s tgt rnd now] by simp
  have b: "balls ?sp ! ?j = balls s ! ?j" using j by (simp add: spawnStep_nth)
  show ?thesis
  proof (cases h)
    case Left
    from processHand_thrown [of now Left ?sp rnd] assms Left
    have t: "balls ?sL ! ?j = thrown rnd (draws ?sp) (hands s Left) (balls s ! ?j)"
      using b by simp
    have "balls (processHand rnd now Right ?sL) ! ?j = balls ?sL ! ?j"
      using jp t by (simp add: processHand_other)
    with t Left show ?thesis unfolding resolve_nth by auto
  next
    case Right
    have e: "balls ?sL ! last (heldRefs Right (balls s)) = balls s ! last (heldRefs Right (balls s))"
      using jp held Right b by (simp add: processHand_other)
    have f: "throwFires now Right ?sL"
      using assms Right by (simp add: throwFires_processHand_other)
    have r: "heldRefs Right (balls ?sL) = heldRefs Right (balls s)"
      by (simp add: heldRefs_processHand_other)
    from processHand_thrown [OF f, of rnd] Right show ?thesis
      unfolding resolve_nth r e by auto
  qed
qed

lemma updateGame_nth:
  assumes "gameState s = PLAYING" "i < length (balls (resolve tgt rnd now s))"
  shows "\<exists>d. balls (updateGame tgt rnd now s) ! i
           = fst (updateBall rnd (hands s) (balls (resolve tgt rnd now s) ! i) d)"
  using physics_nth [OF assms(2), of rnd] assms(1) by (simp add: updateGame_def)

lemma length_updateGame: "length (balls s) \<le> length (balls (updateGame tgt rnd now s))"
  by (simp add: updateGame_def length_resolve)

lemma updateBall_free:
  assumes "heldBy b = None" "vy b + GRAVITY \<le> - 0.01"
  shows "heldBy (fst (updateBall rnd hs b d)) = None"
proof (cases "heldBy (fst (updateBall rnd hs b d))")
  case None
  then show ?thesis .
next
  case (Some h)
  from updateBall_caught [OF assms(1) Some] assms(2) show ?thesis by simp
qed

lemma updateBall_respawn:
  assumes "heldBy b = None" "y b + (vy b + GRAVITY) > 1.2"
  shows "fst (updateBall rnd hs b d) = fst (respawnBall rnd (catchChecks hs (wallBounce (integrate b))) d)"
  using assms by (simp add: updateBall_def Let_def catchChecks_def)

section \<open>Three frames, evaluated\<close>

lemma sqrt_less_numeral:
  "0 \<le> a \<Longrightarrow> 0 < b \<Longrightarrow> sqrt a < b \<longleftrightarrow> a < b * b"
  using real_sqrt_less_iff [of a "b * b"] by simp

lemma sqrt_times_less_numeral:
  "0 \<le> a \<Longrightarrow> 0 < c \<Longrightarrow> 0 < b \<Longrightarrow> sqrt a * c < b \<longleftrightarrow> a < (b / c) * (b / c)"
  using sqrt_less_numeral [of a "b / c"] by (simp add: field_simps)

lemma onResults_seen_left:
  "onResults (seen ''Left'' px py) (bothHands (l, r)) =
     Inr (bothHands (palmHand \<lparr>x = px, y = py, z = 0\<rparr> l, r\<lparr>isPresent := False\<rparr>))"
  by (simp add: onResults_def seen_def palmAt_def bothHands_def Let_def nth_append)

lemmas frame_defs = onFrame_def updateGame_def resolve_def spawnStep_def processHand_def
  heldRefs_def throwBall_def thrown_def place_def physics_def updateBall_def integrate_def
  wallBounce_def catchChecks_def checkHandCatch_def respawnBall_def palmHand_def Let_def

lemma frame1: "onFrame (seen ''Left'' 0.5 0.5) 2 half 1000 trace0 = Inr trace1"
  unfolding trace0_def trace1_def playing_def
  by (simp add: onFrame_def onResults_seen_left)
     (simp add: frame_defs example_defs sqrt_less_numeral sqrt_times_less_numeral)

lemma frame2: "onFrame (seen ''Left'' 0.5 0.5) 2 half 1016 trace1 = Inr trace2"
  unfolding trace1_def trace2_def playing_def
  by (simp add: onFrame_def onResults_seen_left)
     (simp add: frame_defs example_defs sqrt_less_numeral sqrt_times_less_numeral)

lemma frame3: "onFrame (seen ''Left'' 0.5 0.4) 2 half 1032 trace2 = Inr trace3"
  unfolding trace2_def trace3_def playing_def
  by (simp add: onFrame_def onResults_seen_left)
     (simp add: frame_defs example_defs sqrt_less_numeral sqrt_times_less_numeral)

section \<open>Score and cooldown\<close>

lemma score_processHand:
  "score (processHand rnd now h s) = score s + (if throwFires now h s then 10 else 0)"
  by (auto simp: processHand_def throwFires_def throwBall_def Let_def)

lemma cooldown_processHand:
  "throwCooldowns (processHand rnd now h s) h = (if throwFires now h s then now else throwCooldowns s h)"
  by (auto simp: processHand_def throwFires_def throwBall_def Let_def)

lemma score_physics [simp]: "score (physics rnd s) = score s"
  by (simp add: physics_def case_prod_unfold Let_def)

lemma score_updateGame:
  "gameState s = PLAYING \<Longrightarrow>
     score (updateGame tgt rnd now s)
       = score s + (if throwFires now Left s then 10 else 0) + (if throwFires now Right s then 10 else 0)"
  by (simp add: updateGame_def resolve_def score_processHand throwFires_processHand_other)

lemma sorted_heldRefs: "sorted (heldRefs h bs)"
  unfolding heldRefs_def by (rule sorted_wrt_filter) simp

lemma heldRefs_le_last:
  assumes "i < length bs" "heldBy (bs ! i) = Some h"
  shows "i \<le> last (heldRefs h bs)"
proof -
  from assms have "i \<in> set (heldRefs h bs)" by (simp add: set_heldRefs)
  then obtain n where n: "n < length (heldRefs h bs)" "heldRefs h bs ! n = i"
    by (auto simp: in_set_conv_nth)
  then have ne: "heldRefs h bs \<noteq> []" by auto
  from n have "n \<le> length (heldRefs h bs) - 1" by simp
  moreover have "length (heldRefs h bs) - 1 < length (heldRefs h bs)" using ne by simp
  ultimately have "heldRefs h bs ! n \<le> heldRefs h bs ! (length (heldRefs h bs) - 1)"
    using sorted_heldRefs [of h bs] by (rule sorted_nth_mono [rotated])
  with n ne show ?thesis by (simp add: last_conv_nth)
qed

lemma processHand_keeps_others:
  assumes "throwFires now h s" "i < length (balls s)" "i \<noteq> last (heldRefs h (balls s))"
  shows "heldBy (balls (processHand rnd now h s) ! i) = heldBy (balls s ! i)"
  using processHand_cases [OF assms(2), of h rnd now] assms(1,3)
  by (auto simp: throwFires_def)

lemma processHand_keeps_all:
  assumes "\<not> throwFires now h s" "isPresent (hands s h)" "i < length (balls s)"
  shows "heldBy (balls (processHand rnd now h s) ! i) = heldBy (balls s ! i)"
  using processHand_cases [OF assms(3), of h rnd now] assms(1,2)
  by auto

section \<open>Stacking\<close>

lemma heldRefs_positionHeld:
  assumes "distinct refs" "\<forall>r \<in> set refs. r < length bs"
  shows "heldRefs h (positionHeld hand refs k bs) = heldRefs h bs"
proof (rule heldRefs_cong)
  show "length (positionHeld hand refs k bs) = length bs" by simp
next
  fix i
  from positionHeld_cases [OF assms, of hand k i]
  show "heldBy (positionHeld hand refs k bs ! i) = Some h \<longleftrightarrow> heldBy (bs ! i) = Some h"
    by auto
qed

lemma processHand_slot:
  assumes "isPresent (hands s h)"
    and "k < length (heldRefs h (balls (processHand rnd now h s)))"
  shows "\<exists>b. balls (processHand rnd now h s) ! (heldRefs h (balls (processHand rnd now h s)) ! k)
           = place (hands s h) k b"
proof (cases "throwFires now h s")
  case False
  have "heldRefs h (positionHeld (hands s h) (heldRefs h (balls s)) 0 (balls s)) = heldRefs h (balls s)"
    by (rule heldRefs_positionHeld [OF distinct_heldRefs refs_in_range])
  with assms False
    positionHeld_nth [OF distinct_heldRefs refs_in_range, of k h "balls s" "hands s h" 0]
  show ?thesis by (auto simp: processHand_holds)
next
  case True
  let ?s1 = "throwBall rnd now h (last (heldRefs h (balls s))) s"
  have "heldRefs h (positionHeld (hands s h) (heldRefs h (balls ?s1)) 0 (balls ?s1))
          = heldRefs h (balls ?s1)"
    by (rule heldRefs_positionHeld [OF distinct_heldRefs refs_in_range])
  with assms True
    positionHeld_nth [OF distinct_heldRefs refs_in_range, of k h "balls ?s1" "hands s h" 0]
  show ?thesis by (auto simp: processHand_fires Let_def)
qed

lemma place_position:
  "b' = place hand k b \<Longrightarrow>
     x b' = x hand \<and> y b' = y hand - 0.05 - real (min k MAX_STACK_HEIGHT) * (radius b' * 1.2)"
  by (simp add: place_def Let_def)

lemma resolve_slot:
  assumes "isPresent (hands s h)"
    and "k < length (heldRefs h (balls (resolve tgt rnd now s)))"
  shows "\<exists>b. balls (resolve tgt rnd now s) ! (heldRefs h (balls (resolve tgt rnd now s)) ! k)
           = place (hands s h) k b"
proof (cases h)
  case Right
  with assms processHand_slot [of "processHand rnd now Left (spawnStep tgt rnd now s)" Right k rnd now]
  show ?thesis by (simp add: resolve_def)
next
  case Left
  let ?sL = "processHand rnd now Left (spawnStep tgt rnd now s)"
  have refs: "heldRefs Left (balls (resolve tgt rnd now s)) = heldRefs Left (balls ?sL)"
    by (simp add: resolve_def heldRefs_processHand_other)
  let ?i = "heldRefs Left (balls ?sL) ! k"
  from assms Left refs have k: "k < length (heldRefs Left (balls ?sL))" by simp
  then have "?i \<in> set (heldRefs Left (balls ?sL))" by simp
  then have i: "?i < length (balls ?sL)" and held: "heldBy (balls ?sL ! ?i) = Some Left"
    by (simp_all add: set_heldRefs)
  have same: "balls (resolve tgt rnd now s) ! ?i = balls ?sL ! ?i"
    unfolding resolve_def using i held by (simp add: processHand_other)
  from processHand_slot [of "spawnStep tgt rnd now s" Left k rnd now] assms(1) Left k
  obtain b where "balls ?sL ! ?i = place (hands s Left) k b" by auto
  with same refs Left show ?thesis by auto
qed

lemma updateGame_held:
  assumes "gameState s = PLAYING" "i < length (balls (resolve tgt rnd now s))"
    and "heldBy (balls (resolve tgt rnd now s) ! i) \<noteq> None"
  shows "balls (updateGame tgt rnd now s) ! i = balls (resolve tgt rnd now s) ! i"
  using updateGame_nth [OF assms(1,2)] assms(3) by (auto simp: updateBall_held)

lemma lastSpawnTime_physics [simp]: "lastSpawnTime (physics rnd s) = lastSpawnTime s"
  by (simp add: physics_def case_prod_unfold Let_def)

section \<open>The hand loop\<close>

lemma handLoop_append:
  "handLoop prev classes i (rest @ [l]) acc =
     (case handLoop prev classes i rest acc of
        Inl e \<Rightarrow> Inl e
      | Inr nxt \<Rightarrow> handLoop prev classes (i + length rest) [l] nxt)"
proof (induction rest arbitrary: i acc)
  case Nil
  then show ?case by simp
next
  case (Cons a rest)
  obtain nl nr where acc: "acc = (nl, nr)" by (cases acc)
  show ?case unfolding acc by (simp add: Let_def Cons.IH cong: sum.case_cong)
qed

lemma detections_Suc:
  "detections h classes (Suc n) =
     detections h classes n @ (if sideOf (label (classes ! n)) = h then [n] else [])"
  by (simp add: detections_def)

lemma detections_bound: "j \<in> set (detections h classes n) \<Longrightarrow> j < n"
  by (simp add: detections_def)

lemma tracked_snoc:
  "tracked prev (lms @ [l]) classes h =
     (if sideOf (label (classes ! length lms)) = h then palmHand (l ! 9) (prev h)
      else tracked prev lms classes h)"
proof (cases "sideOf (label (classes ! length lms)) = h")
  case True
  then show ?thesis by (simp add: tracked_def detections_Suc palmHand_def Let_def)
next
  case False
  show ?thesis
  proof (cases "detections h classes (length lms) = []")
    case True
    with False show ?thesis by (simp add: tracked_def detections_Suc)
  next
    case ne: False
    then have "last (detections h classes (length lms)) < length lms"
      using detections_bound [of "last (detections h classes (length lms))" h classes "length lms"]
      by simp
    with False ne show ?thesis
      by (simp add: tracked_def detections_Suc nth_append Let_def)
  qed
qed

lemma bothHands_of_fun: "bothHands (f Left, f Right) = f"
  by (rule ext) (simp add: bothHands_def split: handName.splits)

section \<open>The catch checks\<close>

lemma checkHandCatch_eq:
  "heldBy ball = None \<Longrightarrow> isPresent hand \<Longrightarrow>
     checkHandCatch ball hand hName =
       (if catchCondition ball hand then ball\<lparr>vx := 0, vy := 0, heldBy := Some hName\<rparr> else ball)"
  by (simp add: checkHandCatch_def catchCondition_def Let_def power2_eq_square mult.commute)

lemma catchChecks_eq:
  assumes "heldBy ball = None"
  shows "catchChecks hs ball =
     (if isPresent (hs Left) \<and> catchCondition ball (hs Left)
      then ball\<lparr>vx := 0, vy := 0, heldBy := Some Left\<rparr>
      else if isPresent (hs Right) \<and> catchCondition ball (hs Right)
      then ball\<lparr>vx := 0, vy := 0, heldBy := Some Right\<rparr>
      else ball)"
proof -
  have l: "checkHandCatch ball (hs Left) Left =
      (if isPresent (hs Left) \<and> catchCondition ball (hs Left)
       then ball\<lparr>vx := 0, vy := 0, heldBy := Some Left\<rparr> else ball)"
    using assms checkHandCatch_eq [of ball "hs Left" Left]
    by (cases "isPresent (hs Left)") (simp_all add: checkHandCatch_def)
  have r: "checkHandCatch ball (hs Right) Right =
      (if isPresent (hs Right) \<and> catchCondition ball (hs Right)
       then ball\<lparr>vx := 0, vy := 0, heldBy := Some Right\<rparr> else ball)"
    using assms checkHandCatch_eq [of ball "hs Right" Right]
    by (cases "isPresent (hs Right)") (simp_all add: checkHandCatch_def)
  show ?thesis
    by (simp add: catchChecks_def l r checkHandCatch_excluded)
qed

lemma catchChecks_place [simp]:
  "x (catchChecks hs b) = x b" "y (catchChecks hs b) = y b"
  by (simp_all add: catchChecks_def)

lemma updateBall_free_eq:
  assumes "heldBy b = None"
  shows "fst (updateBall rnd hs b d) =
     (if y (integrate b) > 1.2
      then fst (respawnBall rnd (catchChecks hs (wallBounce (integrate b))) d)
      else catchChecks hs (wallBounce (integrate b)))"
  using assms by (simp add: updateBall_def Let_def)

text \<open>The ball at index \<open>i\<close>, free after the resolver, at the end of the frame.\<close>

lemma updateGame_free:
  assumes "gameState s = PLAYING" "i < length (balls (resolve tgt rnd now s))"
    and "heldBy (balls (resolve tgt rnd now s) ! i) = None"
  shows "\<exists>d. balls (updateGame tgt rnd now s) ! i =
     (if y (integrate (balls (resolve tgt rnd now s) ! i)) > 1.2
      then fst (respawnBall rnd
             (catchChecks (hands s) (wallBounce (integrate (balls (resolve tgt rnd now s) ! i)))) d)
      else catchChecks (hands s) (wallBounce (integrate (balls (resolve tgt rnd now s) ! i))))"
  using updateGame_nth [OF assms(1,2)] updateBall_free_eq [OF assms(3)] by auto

section \<open>The configured count and the frame\<close>

lemma spawnStep_configured:
  "spawnStep tgt rnd now (s\<lparr>targetBallCountState := v\<rparr>)
     = (spawnStep tgt rnd now s)\<lparr>targetBallCountState := v\<rparr>"
  by (simp add: spawnStep_def spawnBall_def)

lemma processHand_configured:
  "processHand rnd now h (s\<lparr>targetBallCountState := v\<rparr>)
     = (processHand rnd now h s)\<lparr>targetBallCountState := v\<rparr>"
  by (simp add: processHand_def throwBall_def Let_def)

lemma physics_configured:
  "physics rnd (s\<lparr>targetBallCountState := v\<rparr>) = (physics rnd s)\<lparr>targetBallCountState := v\<rparr>"
  by (simp add: physics_def case_prod_unfold Let_def)

text \<open>The frame does not read the configured count: it commutes with the slider.\<close>

lemma draw_setTargetBallCount:
  "draw rnd now (setTargetBallCount v s) = setTargetBallCount v (draw rnd now s)"
  by (simp add: draw_def setTargetBallCount_def updateGame_def resolve_def
      spawnStep_configured processHand_configured physics_configured)

section \<open>The hand loop on every frame\<close>

lemma wellFormed_snoc:
  "wellFormed (lms @ [l]) classes \<longleftrightarrow>
     wellFormed lms classes \<and> length lms < length classes \<and> 9 < length l"
  by (auto simp: wellFormed_def)

lemma handLoop_total:
  "handLoop prev classes 0 lms ((prev Left)\<lparr>isPresent := False\<rparr>, (prev Right)\<lparr>isPresent := False\<rparr>)
     = (if wellFormed lms classes
        then Inr (tracked prev lms classes Left, tracked prev lms classes Right)
        else Inl TypeError)"
proof (induction lms rule: rev_induct)
  case Nil
  then show ?case by (simp add: wellFormed_def tracked_def detections_def)
next
  case (snoc l lms)
  show ?case
  proof (cases "wellFormed lms classes")
    case False
    with snoc show ?thesis by (simp add: handLoop_append wellFormed_snoc)
  next
    case True
    with snoc show ?thesis
      by (simp add: handLoop_append wellFormed_snoc tracked_snoc sideOf_def Let_def not_less)
  qed
qed

lemma tracked_none: "tracked prev [] classes h = (prev h)\<lparr>isPresent := False\<rparr>"
  by (simp add: tracked_def detections_def)

lemma onResults_missing:
  "multiHandLandmarks r = None \<or> multiHandedness r = None \<Longrightarrow>
     onResults r prev = Inr (tracked prev [] [])"
proof -
  have "bothHands ((prev Left)\<lparr>isPresent := False\<rparr>, (prev Right)\<lparr>isPresent := False\<rparr>)
          = tracked prev [] []"
    by (rule ext) (simp add: bothHands_def tracked_none split: handName.splits)
  moreover assume "multiHandLandmarks r = None \<or> multiHandedness r = None"
  ultimately show ?thesis
    by (auto simp: onResults_def Let_def split: option.splits)
qed

text \<open>With one free ball, a present left hand and no spawn due, the resolver changes nothing.\<close>

lemma resolve_one_free:
  "resolve 3 half 400 (playing [ballAt px py pvx pvy None] (handAt hx hy hvx hvy True) noHand)
     = playing [ballAt px py pvx pvy None] (handAt hx hy hvx hvy True) noHand"
  by (simp add: resolve_def spawnStep_def processHand_def heldRefs_def example_defs Let_def)

section \<open>Respawn\<close>

text \<open>
  Claim C6. In a Playing frame, a ball that is free when the physics loop reaches it and
  whose \<open>y\<close> after integration exceeds 1.2 is respawned in that frame: at the end of the
  frame its \<open>y\<close> is \<open>-0.2\<close>, above the visible area, it is not held, and it is still at
  the same index of the registry with the same id; the registry never gets shorter.
\<close>

theorem respawn_below_floor:
  assumes "gameState s = PLAYING"
    and "i < length (balls (resolve tgt rnd now s))"
    and "heldBy (balls (resolve tgt rnd now s) ! i) = None"
    and "y (integrate (balls (resolve tgt rnd now s) ! i)) > 1.2"
  shows "y (balls (updateGame tgt rnd now s) ! i) = - 0.2
       \<and> y (balls (updateGame tgt rnd now s) ! i) < 0
       \<and> heldBy (balls (updateGame tgt rnd now s) ! i) = None
       \<and> ballId (balls (updateGame tgt rnd now s) ! i) = ballId (balls (resolve tgt rnd now s) ! i)
       \<and> length (balls s) \<le> length (balls (updateGame tgt rnd now s))"
proof -
  from updateGame_nth [OF assms(1,2)] obtain d where
    d: "balls (updateGame tgt rnd now s) ! i
          = fst (updateBall rnd (hands s) (balls (resolve tgt rnd now s) ! i) d)" ..
  from assms(4) have "y (balls (resolve tgt rnd now s) ! i)
      + (vy (balls (resolve tgt rnd now s) ! i) + GRAVITY) > 1.2" by simp
  from updateBall_respawn [OF assms(3) this, of rnd "hands s" d] d
  show ?thesis by (simp add: respawnBall_def length_updateGame catchChecks_def)
qed

lemma resolve_idle_hands:
  "resolve (Suc 0) half 1000 (playing [ballAt 0.5 1.3 0 0 None] noHand noHand)
     = playing [ballAt 0.5 1.3 0 0 None] noHand noHand"
  by (simp add: resolve_def spawnStep_def processHand_def heldRefs_def example_defs Let_def)

theorem respawn_below_floor_witness:
  "gameState (playing [ballAt 0.5 1.3 0 0 None] noHand noHand) = PLAYING
   \<and> 0 < length (balls (resolve (Suc 0) half 1000 (playing [ballAt 0.5 1.3 0 0 None] noHand noHand)))
   \<and> heldBy (balls (resolve (Suc 0) half 1000 (playing [ballAt 0.5 1.3 0 0 None] noHand noHand)) ! 0) = None
   \<and> y (integrate (balls (resolve (Suc 0) half 1000 (playing [ballAt 0.5 1.3 0 0 None] noHand noHand)) ! 0)) > 1.2
   \<and> y (balls (updateGame (Suc 0) half 1000 (playing [ballAt 0.5 1.3 0 0 None] noHand noHand)) ! 0) = - 0.2
   \<and> heldBy (balls (updateGame (Suc 0) half 1000 (playing [ballAt 0.5 1.3 0 0 None] noHand noHand)) ! 0) = None"
  using respawn_below_floor [of "playing [ballAt 0.5 1.3 0 0 None] noHand noHand" 0 "Suc 0" half 1000]
  unfolding resolve_idle_hands
  by (simp add: example_defs)

section \<open>Drop on loss\<close>

text \<open>
  Claim C9. In a Playing frame, when a hand is not present, every ball it holds is
  released by the resolver whatever the hand's velocity and cooldown: after the
  resolver the ball differs from the ball at the start of the frame only in \<open>heldBy\<close>,
  which is cleared, so its velocity is the one it had; and at the end of the frame the
  ball is not held by that hand.
\<close>

theorem drop_on_loss:
  assumes "gameState s = PLAYING"
    and "\<not> isPresent (hands s h)"
    and "i < length (balls s)"
    and "heldBy (balls s ! i) = Some h"
  shows "balls (resolve tgt rnd now s) ! i = (balls s ! i)\<lparr>heldBy := None\<rparr>
       \<and> vx (balls (resolve tgt rnd now s) ! i) = vx (balls s ! i)
       \<and> vy (balls (resolve tgt rnd now s) ! i) = vy (balls s ! i)
       \<and> heldBy (balls (updateGame tgt rnd now s) ! i) \<noteq> Some h"
proof -
  have r: "balls (resolve tgt rnd now s) ! i = (balls s ! i)\<lparr>heldBy := None\<rparr>"
    using assms(2-4) by (rule resolve_dropped)
  have i: "i < length (balls (resolve tgt rnd now s))"
    using assms(3) length_resolve [of s tgt rnd now] by simp
  from updateGame_nth [OF assms(1) i] obtain d where
    d: "balls (updateGame tgt rnd now s) ! i
          = fst (updateBall rnd (hands s) (balls (resolve tgt rnd now s) ! i) d)" ..
  have "heldBy (balls (updateGame tgt rnd now s) ! i) \<noteq> Some h"
  proof
    assume "heldBy (balls (updateGame tgt rnd now s) ! i) = Some h"
    with d r updateBall_caught [of "balls (resolve tgt rnd now s) ! i" rnd "hands s" d h]
    have "isPresent (hands s h)" by simp
    with assms(2) show False by simp
  qed
  with r show ?thesis by simp
qed

theorem drop_on_loss_witness:
  "gameState (playing [ballAt 0.5 0.5 0.01 0.02 (Some Left)] noHand noHand) = PLAYING
   \<and> \<not> isPresent (hands (playing [ballAt 0.5 0.5 0.01 0.02 (Some Left)] noHand noHand) Left)
   \<and> 0 < length (balls (playing [ballAt 0.5 0.5 0.01 0.02 (Some Left)] noHand noHand))
   \<and> heldBy (balls (playing [ballAt 0.5 0.5 0.01 0.02 (Some Left)] noHand noHand) ! 0) = Some Left
   \<and> balls (resolve (Suc 0) half 1000 (playing [ballAt 0.5 0.5 0.01 0.02 (Some Left)] noHand noHand)) ! 0
       = ballAt 0.5 0.5 0.01 0.02 None"
  using drop_on_loss [of "playing [ballAt 0.5 0.5 0.01 0.02 (Some Left)] noHand noHand" Left 0
      "Suc 0" half 1000]
  by (simp add: example_defs)

section \<open>A thrown ball stays free for the rest of the frame\<close>

text \<open>
  Claim C10. In a Playing frame in which the throw condition holds for a hand, the ball
  that hand throws (the last of its held balls in the registry) leaves the resolver
  free, with vertical velocity \<open>vy * 0.25 - 0.005\<close> for the hand's \<open>vy\<close>; after the
  gravity step its vertical velocity is \<open>vy * 0.25 - 0.005 + 0.00015\<close>, which is below
  \<open>-0.01\<close>, so neither catch check takes it and it is free at the end of the frame.
\<close>

theorem thrown_ball_stays_free:
  assumes "gameState s = PLAYING"
    and "throwFires now h s"
    and "j = last (heldRefs h (balls s))"
  shows "heldBy (balls (resolve tgt rnd now s) ! j) = None
       \<and> vy (balls (resolve tgt rnd now s) ! j) = vy (hands s h) * 0.25 - 0.005
       \<and> vy (integrate (balls (resolve tgt rnd now s) ! j))
            = vy (hands s h) * 0.25 - 0.005 + 0.00015
       \<and> vy (integrate (balls (resolve tgt rnd now s) ! j)) < - 0.01
       \<and> \<not> catchCondition (wallBounce (integrate (balls (resolve tgt rnd now s) ! j))) (hands s Left)
       \<and> \<not> catchCondition (wallBounce (integrate (balls (resolve tgt rnd now s) ! j))) (hands s Right)
       \<and> heldBy (balls (updateGame tgt rnd now s) ! j) = None"
proof -
  let ?b = "balls (resolve tgt rnd now s) ! j"
  from resolve_thrown [OF assms(2), of tgt rnd] assms(3) obtain d where
    t: "?b = thrown rnd d (hands s h) (balls s ! j)" by auto
  from assms(2) have fast: "vy (hands s h) < - 0.08"
    by (simp add: throwFires_def THROW_THRESHOLD_def)
  from assms(2) have "heldRefs h (balls s) \<noteq> []" by (simp add: throwFires_def)
  from last_heldRefs [OF this] assms(3) have "j < length (balls s)" by simp
  then have j: "j < length (balls (resolve tgt rnd now s))"
    using length_resolve [of s tgt rnd now] by simp
  have free: "heldBy ?b = None" and v: "vy ?b = vy (hands s h) * 0.25 - 0.005"
    by (simp_all add: t)
  have up: "vy ?b + GRAVITY \<le> - 0.01" using fast by (simp add: v GRAVITY_def)
  from updateGame_nth [OF assms(1) j] obtain d' where
    "balls (updateGame tgt rnd now s) ! j = fst (updateBall rnd (hands s) ?b d')" ..
  with updateBall_free [OF free up] have "heldBy (balls (updateGame tgt rnd now s) ! j) = None"
    by simp
  with free v fast show ?thesis by (simp add: GRAVITY_def catchCondition_def)
qed

theorem thrown_ball_stays_free_witness:
  "gameState (playing [ballAt 0.5 0.45 0 0 (Some Left)] (handAt 0.5 0.4 0 (- 0.1) True) noHand) = PLAYING
   \<and> throwFires 1000 Left (playing [ballAt 0.5 0.45 0 0 (Some Left)] (handAt 0.5 0.4 0 (- 0.1) True) noHand)
   \<and> 0 = last (heldRefs Left
         (balls (playing [ballAt 0.5 0.45 0 0 (Some Left)] (handAt 0.5 0.4 0 (- 0.1) True) noHand)))
   \<and> vy (balls (resolve (Suc 0) half 1000
         (playing [ballAt 0.5 0.45 0 0 (Some Left)] (handAt 0.5 0.4 0 (- 0.1) True) noHand)) ! 0) = - 0.03
   \<and> heldBy (balls (updateGame (Suc 0) half 1000
         (playing [ballAt 0.5 0.45 0 0 (Some Left)] (handAt 0.5 0.4 0 (- 0.1) True) noHand)) ! 0) = None"
  using thrown_ball_stays_free
    [of "playing [ballAt 0.5 0.45 0 0 (Some Left)] (handAt 0.5 0.4 0 (- 0.1) True) noHand"
        1000 Left 0 "Suc 0" half]
  by (simp add: throwFires_def heldRefs_def example_defs)

section \<open>Throwing\<close>

text \<open>
  Claim C1, as the code has it. For each hand, the throw happens exactly when the throw
  condition holds: then the score grows by exactly 10, the hand's last-throw time
  becomes \<open>now\<close>, and exactly one ball changes \<open>heldBy\<close>: the held ball of that hand
  that is last in registry order (the one drawn on top of the stack) is released. When
  the condition fails, score and last-throw time are unchanged and, with the hand
  present, no \<open>heldBy\<close> changes. Over a whole Playing frame the score grows by 10 for
  each hand whose throw condition holds.
\<close>

theorem throw_rule:
  "score (processHand rnd now h s) = score s + (if throwFires now h s then 10 else 0)
   \<and> throwCooldowns (processHand rnd now h s) h
        = (if throwFires now h s then now else throwCooldowns s h)
   \<and> (throwFires now h s \<longrightarrow>
        heldBy (balls s ! last (heldRefs h (balls s))) = Some h
      \<and> heldBy (balls (processHand rnd now h s) ! last (heldRefs h (balls s))) = None
      \<and> (\<forall>i < length (balls s). heldBy (balls s ! i) = Some h \<longrightarrow>
             i \<le> last (heldRefs h (balls s)))
      \<and> (\<forall>i < length (balls s). i \<noteq> last (heldRefs h (balls s)) \<longrightarrow>
             heldBy (balls (processHand rnd now h s) ! i) = heldBy (balls s ! i)))
   \<and> (\<not> throwFires now h s \<and> isPresent (hands s h) \<longrightarrow>
        (\<forall>i < length (balls s).
             heldBy (balls (processHand rnd now h s) ! i) = heldBy (balls s ! i)))
   \<and> (gameState s = PLAYING \<longrightarrow>
        score (updateGame tgt rnd now s)
          = score s + (if throwFires now Left s then 10 else 0)
                    + (if throwFires now Right s then 10 else 0))"
proof (intro conjI impI allI)
  show "score (processHand rnd now h s) = score s + (if throwFires now h s then 10 else 0)"
    by (rule score_processHand)
  show "throwCooldowns (processHand rnd now h s) h
        = (if throwFires now h s then now else throwCooldowns s h)"
    by (rule cooldown_processHand)
next
  assume f: "throwFires now h s"
  then have "heldRefs h (balls s) \<noteq> []" by (simp add: throwFires_def)
  from last_heldRefs [OF this]
  show "heldBy (balls s ! last (heldRefs h (balls s))) = Some h" by simp
  show "heldBy (balls (processHand rnd now h s) ! last (heldRefs h (balls s))) = None"
    by (simp add: processHand_thrown [OF f])
next
  fix i
  assume "i < length (balls s)" "heldBy (balls s ! i) = Some h"
  then show "i \<le> last (heldRefs h (balls s))" by (rule heldRefs_le_last)
next
  fix i
  assume "throwFires now h s" "i < length (balls s)" "i \<noteq> last (heldRefs h (balls s))"
  then show "heldBy (balls (processHand rnd now h s) ! i) = heldBy (balls s ! i)"
    by (rule processHand_keeps_others)
next
  fix i
  assume "\<not> throwFires now h s \<and> isPresent (hands s h)" "i < length (balls s)"
  then show "heldBy (balls (processHand rnd now h s) ! i) = heldBy (balls s ! i)"
    by (simp add: processHand_keeps_all)
next
  assume "gameState s = PLAYING"
  then show "score (updateGame tgt rnd now s)
          = score s + (if throwFires now Left s then 10 else 0)
                    + (if throwFires now Right s then 10 else 0)"
    by (rule score_updateGame)
qed

theorem throw_rule_witness:
  "throwFires 1032 Left
     (playing [ballAt 0.5 0.5 0 0 (Some Left), ballAt 0.5 0.45 0 0 (Some Left)]
        (handAt 0.5 0.4 0 (- 0.1) True) noHand)
   \<and> last (heldRefs Left [ballAt 0.5 0.5 0 0 (Some Left), ballAt 0.5 0.45 0 0 (Some Left)]) = 1
   \<and> score (processHand half 1032 Left
        (playing [ballAt 0.5 0.5 0 0 (Some Left), ballAt 0.5 0.45 0 0 (Some Left)]
           (handAt 0.5 0.4 0 (- 0.1) True) noHand)) = 10
   \<and> throwCooldowns (processHand half 1032 Left
        (playing [ballAt 0.5 0.5 0 0 (Some Left), ballAt 0.5 0.45 0 0 (Some Left)]
           (handAt 0.5 0.4 0 (- 0.1) True) noHand)) Left = 1032
   \<and> heldBy (balls (processHand half 1032 Left
        (playing [ballAt 0.5 0.5 0 0 (Some Left), ballAt 0.5 0.45 0 0 (Some Left)]
           (handAt 0.5 0.4 0 (- 0.1) True) noHand)) ! 1) = None
   \<and> heldBy (balls (processHand half 1032 Left
        (playing [ballAt 0.5 0.5 0 0 (Some Left), ballAt 0.5 0.45 0 0 (Some Left)]
           (handAt 0.5 0.4 0 (- 0.1) True) noHand)) ! 0) = Some Left
   \<and> \<not> throwFires 400 Left
        (playing [ballAt 0.5 0.5 0 0 (Some Left), ballAt 0.5 0.45 0 0 (Some Left)]
           (handAt 0.5 0.4 0 (- 0.1) True) noHand)
   \<and> score (processHand half 400 Left
        (playing [ballAt 0.5 0.5 0 0 (Some Left), ballAt 0.5 0.45 0 0 (Some Left)]
           (handAt 0.5 0.4 0 (- 0.1) True) noHand)) = 0
   \<and> heldBy (balls (processHand half 400 Left
        (playing [ballAt 0.5 0.5 0 0 (Some Left), ballAt 0.5 0.45 0 0 (Some Left)]
           (handAt 0.5 0.4 0 (- 0.1) True) noHand)) ! 1) = Some Left"
  using throw_rule [of half 1032 Left
      "playing [ballAt 0.5 0.5 0 0 (Some Left), ballAt 0.5 0.45 0 0 (Some Left)]
         (handAt 0.5 0.4 0 (- 0.1) True) noHand"]
    throw_rule [of half 400 Left
      "playing [ballAt 0.5 0.5 0 0 (Some Left), ballAt 0.5 0.45 0 0 (Some Left)]
         (handAt 0.5 0.4 0 (- 0.1) True) noHand"]
  by (simp add: throwFires_def heldRefs_def example_defs)

text \<open>
  The claim as written fails on the ball that is released. In the run below the ball
  with id 2 is caught by the left hand in the first frame and the ball with id 1 in the
  second, so the ball with id 1 is the one most recently added to the hand; the throw
  of the third frame releases the ball with id 2 and keeps the ball with id 1.
\<close>

theorem throw_releases_earlier_catch:
  "map ballId (balls trace0) = [1, 2]
   \<and> map heldBy (balls trace0) = [None, None]
   \<and> onFrame (seen ''Left'' 0.5 0.5) 2 half 1000 trace0 = Inr trace1
   \<and> map heldBy (balls trace1) = [None, Some Left]
   \<and> onFrame (seen ''Left'' 0.5 0.5) 2 half 1016 trace1 = Inr trace2
   \<and> map heldBy (balls trace2) = [Some Left, Some Left]
   \<and> onFrame (seen ''Left'' 0.5 0.4) 2 half 1032 trace2 = Inr trace3
   \<and> map heldBy (balls trace3) = [Some Left, None]
   \<and> map ballId (balls trace3) = [1, 2]
   \<and> score trace3 = score trace2 + 10"
  using frame1 frame2 frame3
  by (simp add: trace0_def trace1_def trace2_def trace3_def example_defs)

section \<open>Held balls follow the hand\<close>

text \<open>
  Claim C3. After the resolver step of a frame, for a present hand, the ball in slot
  \<open>k\<close> of the hand's stack (its \<open>k\<close>-th held ball, slot 0 closest to the hand) is at the
  hand's \<open>x\<close> and at the hand's \<open>y\<close> minus \<open>0.05\<close> minus \<open>min k 4\<close> times \<open>1.2\<close> radii: the
  position is a function of the hand's position and the slot alone, so nothing
  accumulates from frame to frame, and the offset stops growing at slot 4. The physics
  loop of a Playing frame leaves such a ball as the resolver placed it.
\<close>

theorem held_position:
  assumes "gameState s = PLAYING"
    and "isPresent (hands s h)"
    and "k < length (heldRefs h (balls (resolve tgt rnd now s)))"
    and "i = heldRefs h (balls (resolve tgt rnd now s)) ! k"
  shows "heldBy (balls (resolve tgt rnd now s) ! i) = Some h
       \<and> x (balls (resolve tgt rnd now s) ! i) = x (hands s h)
       \<and> y (balls (resolve tgt rnd now s) ! i)
           = y (hands s h) - 0.05
             - real (min k MAX_STACK_HEIGHT) * (radius (balls (resolve tgt rnd now s) ! i) * 1.2)
       \<and> balls (updateGame tgt rnd now s) ! i = balls (resolve tgt rnd now s) ! i"
proof -
  let ?r = "resolve tgt rnd now s"
  from assms(3,4) have "i \<in> set (heldRefs h (balls ?r))" by simp
  then have i: "i < length (balls ?r)" and held: "heldBy (balls ?r ! i) = Some h"
    by (simp_all add: set_heldRefs)
  from resolve_slot [OF assms(2,3)] assms(4) obtain b where
    "balls ?r ! i = place (hands s h) k b" by auto
  from place_position [OF this] held updateGame_held [OF assms(1) i] show ?thesis by simp
qed

theorem held_position_witness:
  "gameState (playing [ballAt 0.5 0.5 0 0 (Some Left), ballAt 0.5 0.5 0 0 (Some Left)]
              (handAt 0.3 0.6 0.01 0 True) noHand) = PLAYING
   \<and> isPresent (hands (playing [ballAt 0.5 0.5 0 0 (Some Left), ballAt 0.5 0.5 0 0 (Some Left)]
              (handAt 0.3 0.6 0.01 0 True) noHand) Left)
   \<and> heldRefs Left (balls (resolve 2 half 1000
         (playing [ballAt 0.5 0.5 0 0 (Some Left), ballAt 0.5 0.5 0 0 (Some Left)]
              (handAt 0.3 0.6 0.01 0 True) noHand))) = [0, 1]
   \<and> x (balls (resolve 2 half 1000
         (playing [ballAt 0.5 0.5 0 0 (Some Left), ballAt 0.5 0.5 0 0 (Some Left)]
              (handAt 0.3 0.6 0.01 0 True) noHand)) ! 1) = 0.3
   \<and> y (balls (resolve 2 half 1000
         (playing [ballAt 0.5 0.5 0 0 (Some Left), ballAt 0.5 0.5 0 0 (Some Left)]
              (handAt 0.3 0.6 0.01 0 True) noHand)) ! 1) = 0.502"
  using held_position [of "playing [ballAt 0.5 0.5 0 0 (Some Left), ballAt 0.5 0.5 0 0 (Some Left)]
              (handAt 0.3 0.6 0.01 0 True) noHand" Left 1 2 half 1000 1]
  by (simp add: resolve_def spawnStep_def processHand_def heldRefs_def place_def Let_def example_defs)

section \<open>Velocity of a held ball\<close>

text \<open>
  Claim C2, as the code has it. A ball held at the end of a Playing frame is held by a
  present hand. If it was caught in that frame its velocity is \<open>(0, 0)\<close>; if it was
  already held by that hand at the start of the frame its velocity is the hand's
  velocity \<open>(vx, vy)\<close>, which the resolver copies into every held ball: a held ball
  moves rigidly with the hand, and its velocity is zero only while the hand is still.
\<close>

theorem held_velocity:
  assumes "gameState s = PLAYING"
    and "i < length (balls (updateGame tgt rnd now s))"
    and "heldBy (balls (updateGame tgt rnd now s) ! i) = Some h"
  shows "isPresent (hands s h)
       \<and> (if i < length (balls s) \<and> heldBy (balls s ! i) = Some h
          then vx (balls (updateGame tgt rnd now s) ! i) = vx (hands s h)
             \<and> vy (balls (updateGame tgt rnd now s) ! i) = vy (hands s h)
          else vx (balls (updateGame tgt rnd now s) ! i) = 0
             \<and> vy (balls (updateGame tgt rnd now s) ! i) = 0)"
proof -
  let ?sp = "spawnStep tgt rnd now s"
  let ?r = "resolve tgt rnd now s"
  let ?b' = "balls (updateGame tgt rnd now s) ! i"
  from assms(1,2) have ir: "i < length (balls ?r)" by (simp add: updateGame_def)
  then have isp: "i < length (balls ?sp)" by (simp add: length_resolve_eq)
  from updateGame_nth [OF assms(1) ir] obtain d where
    d: "?b' = fst (updateBall rnd (hands s) (balls ?r ! i) d)" ..
  have old: "i < length (balls s) \<Longrightarrow> balls ?sp ! i = balls s ! i"
    by (rule spawnStep_nth)
  have new: "\<not> i < length (balls s) \<Longrightarrow> heldBy (balls ?sp ! i) = None"
    using isp by (simp add: spawnStep_new)
  from hands_cases [OF isp, of rnd now]
  consider
    (free) "heldBy (balls ?sp ! i) = None" "balls ?r ! i = balls ?sp ! i"
  | (dropped) h2 where "heldBy (balls ?sp ! i) = Some h2" "\<not> isPresent (hands s h2)"
      "balls ?r ! i = (balls ?sp ! i)\<lparr>heldBy := None\<rparr>"
  | (thrown) h2 d2 where "throwFires now h2 s"
      "balls ?r ! i = thrown rnd d2 (hands s h2) (balls ?sp ! i)"
  | (placed) h2 k where "heldBy (balls ?sp ! i) = Some h2" "isPresent (hands s h2)"
      "balls ?r ! i = place (hands s h2) k (balls ?sp ! i)"
    unfolding resolve_nth by auto
  then show ?thesis
  proof cases
    case free
    then have "heldBy (balls ?r ! i) = None" by simp
    from updateBall_caught [OF this, of rnd "hands s" d h] d assms(3)
    have "isPresent (hands s h) \<and> vx ?b' = 0 \<and> vy ?b' = 0" by simp
    moreover have "\<not> (i < length (balls s) \<and> heldBy (balls s ! i) = Some h)"
      using free(1) old by auto
    ultimately show ?thesis by auto
  next
    case dropped
    then have "heldBy (balls ?r ! i) = None" by simp
    from updateBall_caught [OF this, of rnd "hands s" d h] d assms(3)
    have c: "isPresent (hands s h) \<and> vx ?b' = 0 \<and> vy ?b' = 0" by simp
    with dropped(2) have "h \<noteq> h2" by auto
    then have "\<not> (i < length (balls s) \<and> heldBy (balls s ! i) = Some h)"
      using dropped(1) old by auto
    with c show ?thesis by auto
  next
    case thrown
    from thrown(1) have "vy (hands s h2) < - 0.08"
      by (simp add: throwFires_def THROW_THRESHOLD_def)
    then have "vy (balls ?r ! i) + GRAVITY \<le> - 0.01"
      by (simp add: thrown(2) GRAVITY_def)
    moreover have "heldBy (balls ?r ! i) = None" by (simp add: thrown(2))
    ultimately have "heldBy ?b' = None"
      unfolding d by (intro updateBall_free)
    with assms(3) show ?thesis by simp
  next
    case placed
    then have "heldBy (balls ?r ! i) \<noteq> None" by simp
    then have same: "?b' = balls ?r ! i" unfolding d by (rule updateBall_held)
    with assms(3) placed have h: "h = h2" by simp
    have "i < length (balls s)" using new placed(1) by auto
    with old placed(1) h have "i < length (balls s) \<and> heldBy (balls s ! i) = Some h" by simp
    with placed same h show ?thesis by auto
  qed
qed

theorem held_velocity_witness:
  "gameState trace2 = PLAYING
   \<and> 0 < length (balls (updateGame 2 half 1032 (trace2\<lparr>hands := bothHands (handAt 0.5 0.4 0 (- 0.1) True, noHand)\<rparr>)))
   \<and> heldBy (balls (updateGame 2 half 1032
        (trace2\<lparr>hands := bothHands (handAt 0.5 0.4 0 (- 0.1) True, noHand)\<rparr>)) ! 0) = Some Left
   \<and> heldBy (balls trace2 ! 0) = Some Left
   \<and> vx (balls (updateGame 2 half 1032
        (trace2\<lparr>hands := bothHands (handAt 0.5 0.4 0 (- 0.1) True, noHand)\<rparr>)) ! 0) = 0
   \<and> vy (balls (updateGame 2 half 1032
        (trace2\<lparr>hands := bothHands (handAt 0.5 0.4 0 (- 0.1) True, noHand)\<rparr>)) ! 0) = - 0.1
   \<and> gameState trace1 = PLAYING
   \<and> heldBy (balls trace1 ! 0) = None
   \<and> vy (balls trace1 ! 0) = 0.20015
   \<and> heldBy (balls (updateGame 2 half 1016 trace1) ! 0) = Some Left
   \<and> vy (balls (updateGame 2 half 1016 trace1) ! 0) = 0"
  using held_velocity [of "trace2\<lparr>hands := bothHands (handAt 0.5 0.4 0 (- 0.1) True, noHand)\<rparr>"
      0 2 half 1032 Left]
    held_velocity [of trace1 0 2 half 1016 Left]
  by (simp add: trace1_def trace2_def frame_defs example_defs sqrt_less_numeral
      sqrt_times_less_numeral)

text \<open>
  The claim as written fails for a moving hand: in the third frame of the run above the
  ball with id 1 is held by the left hand before and after the frame, and its vertical
  velocity after the frame is the hand's, \<open>-0.1\<close>.
\<close>

theorem held_ball_moves_with_hand:
  "onFrame (seen ''Left'' 0.5 0.4) 2 half 1032 trace2 = Inr trace3
   \<and> heldBy (balls trace2 ! 0) = Some Left
   \<and> heldBy (balls trace3 ! 0) = Some Left
   \<and> vy (hands trace3 Left) = - 0.1
   \<and> vy (balls trace3 ! 0) = - 0.1"
  using frame3
  by (simp add: trace2_def trace3_def example_defs)

section \<open>Catching\<close>

text \<open>
  Claim C4, as the code has it. Take a ball that is free when the physics loop of a
  Playing frame reaches it, and let \<open>ball\<close> be that ball after integration and wall
  bounce, as the catch checks see it. At the end of the frame the ball is held by the
  left hand exactly when the left hand is present, the elliptical distance
  \<open>sqrt (dx\<^sup>2 + (0.75 * dy)\<^sup>2)\<close> is below \<open>radius + HAND_RADIUS / 2\<close>, \<open>vy > -0.01\<close>, and
  the ball's \<open>y\<close> does not exceed 1.2; it is held by the right hand exactly when the left
  hand did not catch it and the same holds for the right hand. A ball held at the end
  of the frame has velocity \<open>(0, 0)\<close> and the position at which it was caught. A ball
  whose \<open>y\<close> exceeds 1.2 ends the frame respawned and free, caught or not. Each check
  of a present hand marks the free ball held, with velocity \<open>(0, 0)\<close>, exactly under the
  catch condition; a ball that is already held when the loop reaches it is left as it
  is. The field \<open>heldBy\<close> holds at most one hand by its type.
\<close>

theorem catch_rule:
  assumes "gameState s = PLAYING"
    and "i < length (balls (resolve tgt rnd now s))"
    and "heldBy (balls (resolve tgt rnd now s) ! i) = None"
    and "ball = wallBounce (integrate (balls (resolve tgt rnd now s) ! i))"
  shows "(heldBy (balls (updateGame tgt rnd now s) ! i) = Some Left \<longleftrightarrow>
            isPresent (hands s Left) \<and> catchCondition ball (hands s Left) \<and> y ball \<le> 1.2)
       \<and> (heldBy (balls (updateGame tgt rnd now s) ! i) = Some Right \<longleftrightarrow>
            \<not> (isPresent (hands s Left) \<and> catchCondition ball (hands s Left))
            \<and> isPresent (hands s Right) \<and> catchCondition ball (hands s Right) \<and> y ball \<le> 1.2)
       \<and> (heldBy (balls (updateGame tgt rnd now s) ! i) \<noteq> None \<longrightarrow>
            vx (balls (updateGame tgt rnd now s) ! i) = 0
          \<and> vy (balls (updateGame tgt rnd now s) ! i) = 0
          \<and> x (balls (updateGame tgt rnd now s) ! i) = x ball
          \<and> y (balls (updateGame tgt rnd now s) ! i) = y ball)
       \<and> (y ball > 1.2 \<longrightarrow>
            heldBy (balls (updateGame tgt rnd now s) ! i) = None
          \<and> y (balls (updateGame tgt rnd now s) ! i) = - 0.2)
       \<and> (isPresent hand \<longrightarrow>
            checkHandCatch ball hand hName =
              (if catchCondition ball hand then ball\<lparr>vx := 0, vy := 0, heldBy := Some hName\<rparr>
               else ball))
       \<and> (\<forall>j < length (balls (resolve tgt rnd now s)).
            heldBy (balls (resolve tgt rnd now s) ! j) \<noteq> None \<longrightarrow>
            balls (updateGame tgt rnd now s) ! j = balls (resolve tgt rnd now s) ! j)"
proof -
  let ?b' = "balls (updateGame tgt rnd now s) ! i"
  have free: "heldBy ball = None" using assms(3,4) by simp
  have yb: "y ball = y (integrate (balls (resolve tgt rnd now s) ! i))" using assms(4) by simp
  from updateGame_free [OF assms(1-3)] assms(4) obtain d where
    d: "?b' = (if y ball > 1.2 then fst (respawnBall rnd (catchChecks (hands s) ball) d)
               else catchChecks (hands s) ball)"
    unfolding yb by auto
  note c = catchChecks_eq [OF free, of "hands s"]
  have 1: "heldBy ?b' = Some Left \<longleftrightarrow>
            isPresent (hands s Left) \<and> catchCondition ball (hands s Left) \<and> y ball \<le> 1.2"
    unfolding d c using free by (auto simp: respawnBall_def)
  have 2: "heldBy ?b' = Some Right \<longleftrightarrow>
            \<not> (isPresent (hands s Left) \<and> catchCondition ball (hands s Left))
            \<and> isPresent (hands s Right) \<and> catchCondition ball (hands s Right) \<and> y ball \<le> 1.2"
    unfolding d c using free by (auto simp: respawnBall_def)
  have 3: "heldBy ?b' \<noteq> None \<longrightarrow> vx ?b' = 0 \<and> vy ?b' = 0 \<and> x ?b' = x ball \<and> y ?b' = y ball"
    unfolding d c using free by (auto simp: respawnBall_def)
  have 4: "y ball > 1.2 \<longrightarrow> heldBy ?b' = None \<and> y ?b' = - 0.2"
    unfolding d by (simp add: respawnBall_def)
  have 5: "isPresent hand \<longrightarrow>
            checkHandCatch ball hand hName =
              (if catchCondition ball hand then ball\<lparr>vx := 0, vy := 0, heldBy := Some hName\<rparr>
               else ball)"
    using checkHandCatch_eq [OF free] by simp
  have 6: "\<forall>j < length (balls (resolve tgt rnd now s)).
            heldBy (balls (resolve tgt rnd now s) ! j) \<noteq> None \<longrightarrow>
            balls (updateGame tgt rnd now s) ! j = balls (resolve tgt rnd now s) ! j"
    using updateGame_held [OF assms(1)] by simp
  from 1 2 3 4 5 6 show ?thesis by blast
qed

theorem catch_rule_witness:
  "gameState (playing [ballAt 0.5 0.49985 0 0 None] (handAt 0.5 0.5 0 0 True) noHand) = PLAYING
   \<and> 0 < length (balls (resolve 3 half 400
         (playing [ballAt 0.5 0.49985 0 0 None] (handAt 0.5 0.5 0 0 True) noHand)))
   \<and> heldBy (balls (resolve 3 half 400
         (playing [ballAt 0.5 0.49985 0 0 None] (handAt 0.5 0.5 0 0 True) noHand)) ! 0) = None
   \<and> wallBounce (integrate (balls (resolve 3 half 400
         (playing [ballAt 0.5 0.49985 0 0 None] (handAt 0.5 0.5 0 0 True) noHand)) ! 0))
       = ballAt 0.5 0.5 0 0.00015 None
   \<and> catchCondition (ballAt 0.5 0.5 0 0.00015 None)
         (hands (playing [ballAt 0.5 0.49985 0 0 None] (handAt 0.5 0.5 0 0 True) noHand) Left)
   \<and> heldBy (balls (updateGame 3 half 400
         (playing [ballAt 0.5 0.49985 0 0 None] (handAt 0.5 0.5 0 0 True) noHand)) ! 0) = Some Left
   \<and> vy (balls (updateGame 3 half 400
         (playing [ballAt 0.5 0.49985 0 0 None] (handAt 0.5 0.5 0 0 True) noHand)) ! 0) = 0
   \<and> y (balls (updateGame 3 half 400
         (playing [ballAt 0.5 0.49985 0 0 None] (handAt 0.5 0.5 0 0 True) noHand)) ! 0) = 0.5"
  using catch_rule [of "playing [ballAt 0.5 0.49985 0 0 None] (handAt 0.5 0.5 0 0 True) noHand"
      0 3 half 400 "ballAt 0.5 0.5 0 0.00015 None" "handAt 0.5 0.5 0 0 True" Left]
  unfolding resolve_one_free
  by (simp add: example_defs catchCondition_def integrate_def wallBounce_def Let_def)

text \<open>
  The claim as written fails below the floor line: a free ball at \<open>(0.5, 1.25)\<close> with
  the left hand present at the same point meets the catch condition, yet it ends the
  frame free at \<open>y = -0.2\<close>, because the floor check after the catch checks respawns it.
\<close>

theorem caught_then_respawned:
  "gameState (playing [ballAt 0.5 1.25 0 0 None] (handAt 0.5 1.25 0 0 True) noHand) = PLAYING
   \<and> heldBy (balls (resolve 3 half 400
         (playing [ballAt 0.5 1.25 0 0 None] (handAt 0.5 1.25 0 0 True) noHand)) ! 0) = None
   \<and> isPresent (hands (playing [ballAt 0.5 1.25 0 0 None] (handAt 0.5 1.25 0 0 True) noHand) Left)
   \<and> catchCondition (wallBounce (integrate (balls (resolve 3 half 400
         (playing [ballAt 0.5 1.25 0 0 None] (handAt 0.5 1.25 0 0 True) noHand)) ! 0)))
         (hands (playing [ballAt 0.5 1.25 0 0 None] (handAt 0.5 1.25 0 0 True) noHand) Left)
   \<and> heldBy (balls (updateGame 3 half 400
         (playing [ballAt 0.5 1.25 0 0 None] (handAt 0.5 1.25 0 0 True) noHand)) ! 0) = None
   \<and> y (balls (updateGame 3 half 400
         (playing [ballAt 0.5 1.25 0 0 None] (handAt 0.5 1.25 0 0 True) noHand)) ! 0) = - 0.2"
  unfolding resolve_one_free
  by (simp add: frame_defs catchCondition_def example_defs sqrt_less_numeral
      sqrt_times_less_numeral)

section \<open>Wall bounce\<close>

text \<open>
  Claim C5. Take a ball that is free when the physics loop of a Playing frame reaches
  it, and let \<open>c\<close> be that ball after integration. The frame passes to its catch checks
  and its floor check the ball \<open>wallBounce c\<close>; when the integrated \<open>x\<close> lies outside
  \<open>[radius, 1 - radius]\<close>, that ball has the horizontal velocity multiplied by \<open>-0.8\<close> and
  \<open>x\<close> clamped to \<open>max radius (min (1 - radius) x)\<close>, and for a radius of at most 0.5 its
  \<open>x\<close> lies in \<open>[radius, 1 - radius]\<close>, bounced or not. At the end of the frame the ball
  has that \<open>x\<close> unless the floor check respawned it, and that horizontal velocity unless
  it was caught or respawned.
\<close>

theorem wall_bounce:
  assumes "gameState s = PLAYING"
    and "i < length (balls (resolve tgt rnd now s))"
    and "heldBy (balls (resolve tgt rnd now s) ! i) = None"
    and "c = integrate (balls (resolve tgt rnd now s) ! i)"
  shows "(\<exists>d. balls (updateGame tgt rnd now s) ! i =
            (if y c > 1.2 then fst (respawnBall rnd (catchChecks (hands s) (wallBounce c)) d)
             else catchChecks (hands s) (wallBounce c)))
       \<and> (x c < radius c \<or> x c > 1 - radius c \<longrightarrow>
            vx (wallBounce c) = - 0.8 * vx c
          \<and> x (wallBounce c) = max (radius c) (min (1 - radius c) (x c)))
       \<and> (radius c \<le> 0.5 \<longrightarrow>
            radius c \<le> x (wallBounce c) \<and> x (wallBounce c) \<le> 1 - radius c)
       \<and> (y c \<le> 1.2 \<and> (x c < radius c \<or> x c > 1 - radius c) \<longrightarrow>
            x (balls (updateGame tgt rnd now s) ! i) = max (radius c) (min (1 - radius c) (x c)))
       \<and> (y c \<le> 1.2 \<and> (x c < radius c \<or> x c > 1 - radius c)
            \<and> heldBy (balls (updateGame tgt rnd now s) ! i) = None \<longrightarrow>
            vx (balls (updateGame tgt rnd now s) ! i) = - 0.8 * vx c)
       \<and> (y c \<le> 1.2 \<and> radius c \<le> 0.5 \<longrightarrow>
            radius c \<le> x (balls (updateGame tgt rnd now s) ! i)
          \<and> x (balls (updateGame tgt rnd now s) ! i) \<le> 1 - radius c)"
proof -
  let ?b' = "balls (updateGame tgt rnd now s) ! i"
  have free: "heldBy (wallBounce c) = None" using assms(3,4) by simp
  from updateGame_free [OF assms(1-3)] assms(4) obtain d where
    d: "?b' = (if y c > 1.2 then fst (respawnBall rnd (catchChecks (hands s) (wallBounce c)) d)
               else catchChecks (hands s) (wallBounce c))"
    by auto
  note k = catchChecks_eq [OF free, of "hands s"]
  have 1: "\<exists>d. ?b' =
            (if y c > 1.2 then fst (respawnBall rnd (catchChecks (hands s) (wallBounce c)) d)
             else catchChecks (hands s) (wallBounce c))"
    using d by blast
  have 2: "x c < radius c \<or> x c > 1 - radius c \<longrightarrow>
            vx (wallBounce c) = - 0.8 * vx c
          \<and> x (wallBounce c) = max (radius c) (min (1 - radius c) (x c))"
    by (auto simp: wallBounce_def)
  have 3: "radius c \<le> 0.5 \<longrightarrow>
            radius c \<le> x (wallBounce c) \<and> x (wallBounce c) \<le> 1 - radius c"
    by (auto simp: wallBounce_def)
  have xe: "y c \<le> 1.2 \<longrightarrow> x ?b' = x (wallBounce c)"
    unfolding d by simp
  have ve: "y c \<le> 1.2 \<and> heldBy ?b' = None \<longrightarrow> vx ?b' = vx (wallBounce c)"
    unfolding d k by (auto split: if_splits)
  from 1 2 3 xe ve show ?thesis by metis
qed

theorem wall_bounce_witness:
  "gameState (playing [ballAt 0.95 0.5 0.02 0 None] (handAt 0.5 0.5 0 0 True) noHand) = PLAYING
   \<and> 0 < length (balls (resolve 3 half 400
         (playing [ballAt 0.95 0.5 0.02 0 None] (handAt 0.5 0.5 0 0 True) noHand)))
   \<and> heldBy (balls (resolve 3 half 400
         (playing [ballAt 0.95 0.5 0.02 0 None] (handAt 0.5 0.5 0 0 True) noHand)) ! 0) = None
   \<and> integrate (balls (resolve 3 half 400
         (playing [ballAt 0.95 0.5 0.02 0 None] (handAt 0.5 0.5 0 0 True) noHand)) ! 0)
       = ballAt 0.97 0.50015 0.02 0.00015 None
   \<and> x (ballAt 0.97 0.50015 0.02 0.00015 None) > 1 - radius (ballAt 0.97 0.50015 0.02 0.00015 None)
   \<and> radius (ballAt 0.97 0.50015 0.02 0.00015 None) \<le> 0.5
   \<and> y (ballAt 0.97 0.50015 0.02 0.00015 None) \<le> 1.2
   \<and> heldBy (balls (updateGame 3 half 400
         (playing [ballAt 0.95 0.5 0.02 0 None] (handAt 0.5 0.5 0 0 True) noHand)) ! 0) = None
   \<and> x (balls (updateGame 3 half 400
         (playing [ballAt 0.95 0.5 0.02 0 None] (handAt 0.5 0.5 0 0 True) noHand)) ! 0) = 0.96
   \<and> vx (balls (updateGame 3 half 400
         (playing [ballAt 0.95 0.5 0.02 0 None] (handAt 0.5 0.5 0 0 True) noHand)) ! 0) = - 0.016"
  using wall_bounce [of "playing [ballAt 0.95 0.5 0.02 0 None] (handAt 0.5 0.5 0 0 True) noHand"
      0 3 half 400 "ballAt 0.97 0.50015 0.02 0.00015 None"]
  unfolding resolve_one_free
  by (simp add: frame_defs example_defs sqrt_less_numeral sqrt_times_less_numeral)

section \<open>Spawning\<close>

text \<open>
  Claim C7, as the code has it, for a game whose configured target count is still the
  initial 3, the value the frame's closure holds. In a Playing frame a ball is added to
  the registry exactly when the registry holds fewer balls than the configured target
  count and more than 500 ms have passed since the last spawn (at exactly 500 ms nothing
  is spawned); the registry grows by one ball or not at all. With \<^verbatim>\<open>Math.random()\<close> in
  \<open>[0, 1)\<close>, the spawned ball has \<open>x\<close> in \<open>[0.2, 0.8]\<close>, \<open>y = -0.1\<close>, a horizontal velocity
  of at most \<open>0.0025\<close> in size, vertical velocity 0 and no holder, and the last spawn
  time becomes \<open>now\<close>.
\<close>

theorem spawn_rule:
  assumes "gameState s = PLAYING"
    and "targetBallCountState s = initialTargetBallCount"
  shows "length (balls (draw rnd now s))
           = length (balls s)
             + (if length (balls s) < targetBallCountState s \<and> now - lastSpawnTime s > 500
                then 1 else 0)
       \<and> (length (balls s) < targetBallCountState s \<and> now - lastSpawnTime s > 500
            \<and> 0 \<le> rnd (draws s + 1) \<and> rnd (draws s + 1) < 1
            \<and> 0 \<le> rnd (draws s + 2) \<and> rnd (draws s + 2) < 1 \<longrightarrow>
              0.2 \<le> x (balls (resolve (targetBallCountState s) rnd now s) ! length (balls s))
            \<and> x (balls (resolve (targetBallCountState s) rnd now s) ! length (balls s)) \<le> 0.8
            \<and> y (balls (resolve (targetBallCountState s) rnd now s) ! length (balls s)) = - 0.1
            \<and> y (balls (resolve (targetBallCountState s) rnd now s) ! length (balls s)) < 0
            \<and> \<bar>vx (balls (resolve (targetBallCountState s) rnd now s) ! length (balls s))\<bar>
                 \<le> 0.0025
            \<and> vy (balls (resolve (targetBallCountState s) rnd now s) ! length (balls s)) = 0
            \<and> heldBy (balls (resolve (targetBallCountState s) rnd now s) ! length (balls s)) = None
            \<and> lastSpawnTime (draw rnd now s) = now)"
proof (intro conjI impI)
  show "length (balls (draw rnd now s))
           = length (balls s)
             + (if length (balls s) < targetBallCountState s \<and> now - lastSpawnTime s > 500
                then 1 else 0)"
    using assms
    by (simp add: draw_def updateGame_def length_resolve_eq spawnStep_def spawnBall_def)
next
  let ?tgt = "targetBallCountState s"
  let ?sp = "spawnStep ?tgt rnd now s"
  assume a: "length (balls s) < ?tgt \<and> now - lastSpawnTime s > 500
            \<and> 0 \<le> rnd (draws s + 1) \<and> rnd (draws s + 1) < 1
            \<and> 0 \<le> rnd (draws s + 2) \<and> rnd (draws s + 2) < 1"
  then have sp: "balls ?sp ! length (balls s) = newBall rnd now (draws s)"
    and len: "length (balls s) < length (balls ?sp)"
    by (simp_all add: spawnStep_def spawnBall_def)
  have free: "heldBy (balls ?sp ! length (balls s)) = None"
    by (simp add: sp newBall_def)
  from hands_cases [OF len, of rnd now] free
  have b: "balls (resolve ?tgt rnd now s) ! length (balls s) = newBall rnd now (draws s)"
    unfolding resolve_nth sp by auto
  show "0.2 \<le> x (balls (resolve ?tgt rnd now s) ! length (balls s))"
    unfolding b using a by (simp add: newBall_def)
  show "x (balls (resolve ?tgt rnd now s) ! length (balls s)) \<le> 0.8"
    unfolding b using a by (simp add: newBall_def)
  show "y (balls (resolve ?tgt rnd now s) ! length (balls s)) = - 0.1"
    unfolding b by (simp add: newBall_def)
  show "y (balls (resolve ?tgt rnd now s) ! length (balls s)) < 0"
    unfolding b by (simp add: newBall_def)
  from a have "\<bar>rnd (draws s + 2) - 0.5\<bar> \<le> 0.5" by linarith
  then show "\<bar>vx (balls (resolve ?tgt rnd now s) ! length (balls s))\<bar> \<le> 0.0025"
    unfolding b by (simp add: newBall_def abs_mult)
  show "vy (balls (resolve ?tgt rnd now s) ! length (balls s)) = 0"
    unfolding b by (simp add: newBall_def)
  show "heldBy (balls (resolve ?tgt rnd now s) ! length (balls s)) = None"
    unfolding b by (simp add: newBall_def)
  show "lastSpawnTime (draw rnd now s) = now"
    using assms a by (simp add: draw_def updateGame_def resolve_def spawnStep_def)
qed

theorem spawn_rule_witness:
  "gameState (playing [] noHand noHand) = PLAYING
   \<and> targetBallCountState (playing [] noHand noHand) = initialTargetBallCount
   \<and> length (balls (playing [] noHand noHand)) < targetBallCountState (playing [] noHand noHand)
   \<and> 501 - lastSpawnTime (playing [] noHand noHand) > 500
   \<and> 0 \<le> half (draws (playing [] noHand noHand) + 1)
   \<and> half (draws (playing [] noHand noHand) + 1) < 1
   \<and> length (balls (draw half 501 (playing [] noHand noHand))) = 1
   \<and> x (balls (resolve (targetBallCountState (playing [] noHand noHand)) half 501
          (playing [] noHand noHand)) ! 0) = 0.5
   \<and> lastSpawnTime (draw half 501 (playing [] noHand noHand)) = 501"
  using spawn_rule [of "playing [] noHand noHand" half 501]
  by (simp add: resolve_def processHand_def heldRefs_def Let_def spawnStep_def spawnBall_def
      newBall_def initialTargetBallCount_def example_defs)

text \<open>
  The claim as written fails at the boundary: with an empty registry, the configured
  target count 3 and exactly 500 ms since the last spawn, the frame adds no ball.
\<close>

theorem no_spawn_at_500ms:
  "gameState (playing [] noHand noHand) = PLAYING
   \<and> targetBallCountState (playing [] noHand noHand) = 3
   \<and> length (balls (playing [] noHand noHand)) < targetBallCountState (playing [] noHand noHand)
   \<and> 500 - lastSpawnTime (playing [] noHand noHand) \<ge> 500
   \<and> balls (draw half 500 (playing [] noHand noHand)) = []"
  by (simp add: draw_def initialTargetBallCount_def frame_defs example_defs)

section \<open>Hand state update\<close>

text \<open>
  Claim C8. The tracker is set up with \<^verbatim>\<open>maxNumHands: 2\<close>, so a landmark frame holds at
  most two detections. On such a frame \<^verbatim>\<open>onResults\<close> processes the detections in source
  order, and nothing beyond the first two: a side with a detection gets its anchor from
  landmark 9 of its detection (of the later one, if both detections are of that side),
  its velocity as the anchor minus the side's previous anchor, and is present; a side
  with no detection keeps its previous position and velocity and is not present. A
  frame in which a detection lacks its classification or its landmark 9 raises a
  \<^verbatim>\<open>TypeError\<close>, and a frame without one of the two arrays leaves both sides not present
  with their previous position and velocity.
\<close>

theorem hand_update:
  assumes "length lms \<le> maxNumHands"
  shows "onResults \<lparr>multiHandLandmarks = Some lms, multiHandedness = Some classes\<rparr> prev
           = (if wellFormed lms classes then Inr (tracked prev lms classes) else Inl TypeError)
       \<and> tracked prev lms classes = tracked prev (take 2 lms) classes
       \<and> (multiHandLandmarks r = None \<or> multiHandedness r = None \<longrightarrow>
            onResults r prev = Inr (tracked prev [] []))
       \<and> tracked prev [] [] h = (prev h)\<lparr>isPresent := False\<rparr>"
  using assms handLoop_total [of prev classes lms] onResults_missing [of r prev]
  by (simp add: onResults_def Let_def bothHands_of_fun tracked_none maxNumHands_def)

theorem hand_update_witness:
  "length (map fst [rightAt 0.5 0.5, leftAt 0.2 0.3]) \<le> maxNumHands
   \<and> wellFormed (map fst [rightAt 0.5 0.5, leftAt 0.2 0.3]) (map snd [rightAt 0.5 0.5, leftAt 0.2 0.3])
   \<and> onResults (frameOf [rightAt 0.5 0.5, leftAt 0.2 0.3])
        (bothHands (handAt 0.1 0.2 0.3 0.4 True, handAt 0.45 0.6 0 0 False))
       = Inr (tracked (bothHands (handAt 0.1 0.2 0.3 0.4 True, handAt 0.45 0.6 0 0 False))
                (map fst [rightAt 0.5 0.5, leftAt 0.2 0.3]) (map snd [rightAt 0.5 0.5, leftAt 0.2 0.3]))
   \<and> tracked (bothHands (handAt 0.1 0.2 0.3 0.4 True, handAt 0.45 0.6 0 0 False))
        (map fst [rightAt 0.5 0.5, leftAt 0.2 0.3]) (map snd [rightAt 0.5 0.5, leftAt 0.2 0.3]) Left
       = handAt 0.2 0.3 0.1 0.1 True
   \<and> tracked (bothHands (handAt 0.1 0.2 0.3 0.4 True, handAt 0.45 0.6 0 0 False))
        (map fst [rightAt 0.5 0.5, leftAt 0.2 0.3]) (map snd [rightAt 0.5 0.5, leftAt 0.2 0.3]) Right
       = handAt 0.5 0.5 0.05 (- 0.1) True
   \<and> multiHandLandmarks (frameOf [rightAt 0.5 0.5]\<lparr>multiHandLandmarks := None\<rparr>) = None
   \<and> onResults (frameOf [rightAt 0.5 0.5]\<lparr>multiHandLandmarks := None\<rparr>)
        (bothHands (handAt 0.1 0.2 0.3 0.4 True, handAt 0.45 0.6 0 0 False))
       = Inr (tracked (bothHands (handAt 0.1 0.2 0.3 0.4 True, handAt 0.45 0.6 0 0 False)) [] [])
   \<and> tracked (bothHands (handAt 0.1 0.2 0.3 0.4 True, handAt 0.45 0.6 0 0 False)) [] [] Left
       = handAt 0.1 0.2 0.3 0.4 False
   \<and> length [take 9 (palmAt 0.5 0.5)] \<le> maxNumHands
   \<and> \<not> wellFormed [take 9 (palmAt 0.5 0.5)] [snd (rightAt 0.5 0.5)]
   \<and> onResults \<lparr>multiHandLandmarks = Some [take 9 (palmAt 0.5 0.5)],
          multiHandedness = Some [snd (rightAt 0.5 0.5)]\<rparr>
        (bothHands (noHand, noHand)) = Inl TypeError"
  using hand_update [of "map fst [rightAt 0.5 0.5, leftAt 0.2 0.3]"
      "map snd [rightAt 0.5 0.5, leftAt 0.2 0.3]"
      "bothHands (handAt 0.1 0.2 0.3 0.4 True, handAt 0.45 0.6 0 0 False)"
      "frameOf [rightAt 0.5 0.5]\<lparr>multiHandLandmarks := None\<rparr>" Left]
    hand_update [of "[take 9 (palmAt 0.5 0.5)]" "[snd (rightAt 0.5 0.5)]"
      "bothHands (noHand, noHand)"]
  by (simp add: frameOf_def rightAt_def leftAt_def palmAt_def tracked_def detections_def
      sideOf_def wellFormed_def maxNumHands_def nth_append example_defs)

end
